theory Spec2Isabelle
  imports Main
begin

section \<open>Lexer\<close>

subsection \<open>Tokens and faults\<close>

text \<open>
  The Go struct \<^verbatim>\<open>Token{Type, Value, Line, Column}\<close>. Go strings are byte sequences,
  here \<open>string\<close> (a list of 8-bit characters); Go \<^verbatim>\<open>int\<close> is \<open>int\<close>.
\<close>

record Token =
  Type :: string
  Value :: string
  Line :: int
  Column :: int

text \<open>
  Every way the pipeline can stop early is a value:
  \<^item> \<open>LexError value line col\<close>: the error returned by \<^verbatim>\<open>tokenize\<close>
    (\<^verbatim>\<open>fmt.Errorf("unexpected token %q at line %d, col %d", value, line, col)\<close>);
  \<^item> \<open>ExpectedError expectedType tok\<close>: the panic of \<^verbatim>\<open>consume\<close>;
  \<^item> \<open>UnexpectedTokenError tok\<close>: the panic of \<^verbatim>\<open>parseExpression\<close>;
  \<^item> \<open>IndexOutOfRange i n\<close>: the runtime panic of a slice read \<^verbatim>\<open>p.tokens[i]\<close> with
    \<open>n = len(p.tokens) \<le> i\<close>.
\<close>

datatype error =
    LexError string int int
  | ExpectedError "string list" Token
  | UnexpectedTokenError Token
  | IndexOutOfRange nat nat

subsection \<open>Decoding one character of the input\<close>

text \<open>
  Go's \<^verbatim>\<open>regexp\<close> reads its input one UTF-8 encoded code point at a time
  (\<^verbatim>\<open>utf8.DecodeRuneInString\<close>): a byte below \<open>0x80\<close> is itself, a well-formed
  multi-byte sequence is its code point with its width, and any other byte is
  \<open>RuneError\<close> with width 1. The width of the empty string is 0.
\<close>

definition RuneError :: nat where
  "RuneError = 0xFFFD"

definition seq_size :: "nat \<Rightarrow> nat" where
  "seq_size b =
     (if b < 0x80 then 1 else if b < 0xC2 then 0 else if b < 0xE0 then 2
      else if b < 0xF0 then 3 else if b < 0xF5 then 4 else 0)"

definition accept_lo :: "nat \<Rightarrow> nat" where
  "accept_lo b = (if b = 0xE0 then 0xA0 else if b = 0xF0 then 0x90 else 0x80)"

definition accept_hi :: "nat \<Rightarrow> nat" where
  "accept_hi b = (if b = 0xED then 0x9F else if b = 0xF4 then 0x8F else 0xBF)"

definition is_cont :: "nat \<Rightarrow> bool" where
  "is_cont b = (0x80 \<le> b \<and> b \<le> 0xBF)"

fun DecodeRuneInString :: "string \<Rightarrow> nat \<times> nat" where
  "DecodeRuneInString [] = (RuneError, 0)"
| "DecodeRuneInString (c0 # t) =
     (let s0 = (of_char c0 :: nat); sz = seq_size s0 in
      if s0 < 0x80 then (s0, 1)
      else if sz = 0 then (RuneError, 1)
      else if length (c0 # t) < sz then (RuneError, 1)
      else
        let s1 = (of_char (t ! 0) :: nat) in
        if s1 < accept_lo s0 \<or> accept_hi s0 < s1 then (RuneError, 1)
        else if sz \<le> 2 then ((s0 mod 32) * 64 + s1 mod 64, 2)
        else
          let s2 = (of_char (t ! 1) :: nat) in
          if \<not> is_cont s2 then (RuneError, 1)
          else if sz \<le> 3 then ((s0 mod 16) * 4096 + (s1 mod 64) * 64 + s2 mod 64, 3)
          else
            let s3 = (of_char (t ! 2) :: nat) in
            if \<not> is_cont s3 then (RuneError, 1)
            else ((s0 mod 8) * 262144 + (s1 mod 64) * 4096 + (s2 mod 64) * 64 + s3 mod 64, 4))"

subsection \<open>Regular expressions with leftmost-first matching\<close>

text \<open>
  The syntax of the patterns that \<^verbatim>\<open>tokenSpecs\<close> uses. A character class is a list of
  inclusive ranges; \<open>Dot\<close> is \<^verbatim>\<open>.\<close>, which in Go matches every code point except the
  newline, whereas a negated class such as \<^verbatim>\<open>[^"\\]\<close> does match the newline.
  \<open>Group\<close> is a capturing group, written \<^verbatim>\<open>(re)\<close> or \<^verbatim>\<open>(?P<name>re)\<close>: Go numbers
  the capturing groups of a pattern, named or not, from 1 in the order of their opening
  parentheses.
\<close>

datatype regex =
    Eps
  | Class "(char \<times> char) list"
  | NegClass "(char \<times> char) list"
  | Dot
  | Seq regex regex
  | Alt regex regex
  | Star regex
  | Group regex

text \<open>The number of capturing groups of a pattern (\<^verbatim>\<open>NumSubexp\<close>).\<close>

fun NumSubexp :: "regex \<Rightarrow> nat" where
  "NumSubexp Eps = 0"
| "NumSubexp (Class rs) = 0"
| "NumSubexp (NegClass rs) = 0"
| "NumSubexp Dot = 0"
| "NumSubexp (Seq a b) = NumSubexp a + NumSubexp b"
| "NumSubexp (Alt a b) = NumSubexp a + NumSubexp b"
| "NumSubexp (Star a) = NumSubexp a"
| "NumSubexp (Group a) = Suc (NumSubexp a)"

definition in_class :: "(char \<times> char) list \<Rightarrow> nat \<Rightarrow> bool" where
  "in_class rs r = list_ex (\<lambda>(lo, hi). of_char lo \<le> r \<and> r \<le> of_char hi) rs"

text \<open>
  The state of a match in progress: the input that remains, its offset in the source
  text, and the submatches recorded so far, a map from the number of a group to the
  offsets of its start and end. A group that is not in the map is unset, which
  \<^verbatim>\<open>FindAllStringSubmatchIndex\<close> reports as the pair \<open>-1, -1\<close>.
\<close>

type_synonym submatches = "nat \<Rightarrow> (nat \<times> nat) option"

type_synonym mstate = "string \<times> nat \<times> submatches"

definition step :: "(nat \<Rightarrow> bool) \<Rightarrow> mstate \<Rightarrow> mstate list" where
  "step P st =
     (case st of (s, off, sub) \<Rightarrow>
        (case s of [] \<Rightarrow> []
         | _ # _ \<Rightarrow>
             (let (r, w) = DecodeRuneInString s in if P r then [(drop w s, off + w, sub)] else [])))"

text \<open>
  \<open>matches r k st\<close> lists the states after each way of matching \<open>r\<close> from the state
  \<open>st\<close>, in the order in which a backtracking matcher finds them: the left alternative
  before the right one, one more iteration of a star before stopping. Its head is the
  match that Go's leftmost-first semantics selects. \<open>k\<close> is the number of groups that open
  before \<open>r\<close> in the whole pattern, so that the first group inside \<open>r\<close> has the number
  \<open>k + 1\<close>. An iteration of a star has to consume input; no starred pattern of
  \<^verbatim>\<open>tokenSpecs\<close> matches the empty string.
\<close>

fun matches :: "regex \<Rightarrow> nat \<Rightarrow> mstate \<Rightarrow> mstate list" where
  "matches Eps k st = [st]"
| "matches (Class rs) k st = step (in_class rs) st"
| "matches (NegClass rs) k st = step (\<lambda>r. \<not> in_class rs r) st"
| "matches Dot k st = step (\<lambda>r. r \<noteq> 10) st"
| "matches (Seq a b) k st = concat (map (matches b (k + NumSubexp a)) (matches a k st))"
| "matches (Alt a b) k st = matches a k st @ matches b (k + NumSubexp a) st"
| "matches (Star a) k st =
     concat (map (matches (Star a) k)
               (filter (\<lambda>st'. length (fst st') < length (fst st)) (matches a k st)))
     @ [st]"
| "matches (Group a) k st =
     map (\<lambda>(s', off', sub'). (s', off', sub'(Suc k \<mapsto> (fst (snd st), off'))))
       (matches a (Suc k) st)"

definition Lit :: "char \<Rightarrow> regex" where
  "Lit c = Class [(c, c)]"

definition OneOf :: "string \<Rightarrow> regex" where
  "OneOf cs = Class (map (\<lambda>c. (c, c)) cs)"

text \<open>
  \<^verbatim>\<open>a+\<close> and \<^verbatim>\<open>a?\<close>, used here on patterns without groups only (\<open>Plus\<close> repeats its
  argument).
\<close>

definition Plus :: "regex \<Rightarrow> regex" where
  "Plus a = Seq a (Star a)"

definition Opt :: "regex \<Rightarrow> regex" where
  "Opt a = Alt a Eps"

definition digit :: regex where
  "digit = Class [(CHR ''0'', CHR ''9'')]"

subsection \<open>The token categories\<close>

text \<open>
  The table \<^verbatim>\<open>tokenSpecs\<close>. The patterns of \<^verbatim>\<open>NUMBER\<close> and \<^verbatim>\<open>STRING\<close> each contain
  a parenthesised subpattern, \<^verbatim>\<open>(\.\d*)\<close> and \<^verbatim>\<open>([^"\\]|\\.)\<close>, which is a capturing group.
\<close>

definition tokenSpecs :: "(string \<times> regex) list" where
  "tokenSpecs =
    [(''NUMBER'', Seq (Plus digit) (Opt (Group (Seq (Lit CHR ''.'') (Star digit))))),
     (''STRING'', Seq (Lit (CHR 0x22))
                   (Seq (Star (Group (Alt (NegClass [(CHR 0x22, CHR 0x22), (CHR 0x5C, CHR 0x5C)])
                                          (Seq (Lit (CHR 0x5C)) Dot))))
                        (Lit (CHR 0x22)))),
     (''ID'', Seq (Class [(CHR ''A'', CHR ''Z''), (CHR ''a'', CHR ''z''), (CHR ''_'', CHR ''_'')])
               (Star (Class [(CHR ''A'', CHR ''Z''), (CHR ''a'', CHR ''z''),
                             (CHR ''0'', CHR ''9''), (CHR ''_'', CHR ''_'')]))),
     (''OP'', OneOf ''+-*/=<>!''),
     (''LPAREN'', Lit CHR ''(''),
     (''RPAREN'', Lit CHR '')''),
     (''LBRACE'', Lit CHR ''{''),
     (''RBRACE'', Lit CHR ''}''),
     (''LANGLE'', Lit CHR ''<''),
     (''RANGLE'', Lit CHR ''>''),
     (''COLON'', Lit CHR '':''),
     (''SEMICOLON'', Lit CHR '';''),
     (''COMMA'', Lit CHR '',''),
     (''NEWLINE'', Lit (CHR 0x0A)),
     (''SKIP'', Plus (OneOf [CHR '' '', CHR 0x09])),
     (''MISMATCH'', Dot)]"

text \<open>
  The combined pattern: each entry becomes the named group \<^verbatim>\<open>(?P<Type>Regex)\<close>, and the
  groups are joined with \<^verbatim>\<open>|\<close>.
\<close>

fun alternation :: "regex list \<Rightarrow> regex" where
  "alternation [] = Eps"
| "alternation [r] = r"
| "alternation (r # rs) = Alt r (alternation rs)"

definition pattern :: regex where
  "pattern = alternation (map (\<lambda>(ty, r). Group r) tokenSpecs)"

text \<open>
  The number of the named group of each entry, counted as Go does: an entry's group
  follows all groups of the entries before it, their inner groups included.
\<close>

fun group_numbers :: "(string \<times> regex) list \<Rightarrow> nat \<Rightarrow> (string \<times> nat) list" where
  "group_numbers [] k = []"
| "group_numbers ((ty, r) # specs) k = (ty, Suc k) # group_numbers specs (Suc k + NumSubexp r)"


text \<open>
  The equation of the star is recursive under no constructor, so it is unfolded by hand.
\<close>

declare matches.simps(7) [simp del]

subsection \<open>Every match of the combined pattern consumes input\<close>

lemma seq_size_multi: "\<not> n < 0x80 \<Longrightarrow> seq_size n \<noteq> 0 \<Longrightarrow> 2 \<le> seq_size n"
  by (simp add: seq_size_def split: if_splits)

lemma DecodeRune_width:
  "s \<noteq> [] \<Longrightarrow> 1 \<le> snd (DecodeRuneInString s) \<and> snd (DecodeRuneInString s) \<le> length s"
proof (cases s)
  case Nil
  assume "s \<noteq> []"
  with Nil show ?thesis by simp
next
  case (Cons c0 t)
  show ?thesis unfolding Cons
    using seq_size_multi [of "of_char c0"]
    by (auto simp: Let_def Suc_le_eq)
qed

lemma step_cases:
  assumes "st' \<in> set (step P st)"
  obtains c cs where "fst st = c # cs" "P (fst (DecodeRuneInString (fst st)))"
    "st' = (drop (snd (DecodeRuneInString (fst st))) (fst st),
            fst (snd st) + snd (DecodeRuneInString (fst st)), snd (snd st))"
proof -
  obtain s off sub where st: "st = (s, off, sub)" by (cases st)
  from assms st obtain c cs where "s = c # cs"
    by (cases s) (auto simp: step_def)
  with assms st that show ?thesis
    by (auto simp: step_def split_beta Let_def simp del: DecodeRuneInString.simps
             split: if_splits)
qed

lemma step_suffix:
  assumes "st' \<in> set (step P st)"
  shows "\<exists>u. u \<noteq> [] \<and> fst st = u @ fst st'"
proof -
  from assms obtain c cs where s: "fst st = c # cs"
    and st': "st' = (drop (snd (DecodeRuneInString (fst st))) (fst st),
            fst (snd st) + snd (DecodeRuneInString (fst st)), snd (snd st))"
    by (rule step_cases)
  let ?w = "snd (DecodeRuneInString (fst st))"
  from s have w: "1 \<le> ?w \<and> ?w \<le> length (fst st)"
    using DecodeRune_width [of "fst st"] by simp
  have "fst st = take ?w (fst st) @ fst st'" using st' by simp
  moreover have "take ?w (fst st) \<noteq> []" using w s by auto
  ultimately show ?thesis by blast
qed

lemma matches_suffix: "st' \<in> set (matches r k st) \<Longrightarrow> \<exists>u. fst st = u @ fst st'"
proof (induction r k st arbitrary: st' rule: matches.induct)
  case (1 k st)
  then show ?case by simp
next
  case (2 rs k st)
  then show ?case using step_suffix by fastforce
next
  case (3 rs k st)
  then show ?case using step_suffix by fastforce
next
  case (4 k st)
  then show ?case using step_suffix by fastforce
next
  case (5 a b k st)
  from "5.prems" obtain m where m: "m \<in> set (matches a k st)"
    and t: "st' \<in> set (matches b (k + NumSubexp a) m)"
    by auto
  from "5.IH"(1) [OF m] obtain u where "fst st = u @ fst m" by blast
  moreover from "5.IH"(2) [OF m t] obtain v where "fst m = v @ fst st'" by blast
  ultimately show ?case by simp
next
  case (6 a b k st)
  from "6.prems" have "st' \<in> set (matches a k st) \<or> st' \<in> set (matches b (k + NumSubexp a) st)"
    by simp
  with "6.IH" show ?case by blast
next
  case (7 a k st)
  from "7.prems" consider "st' = st"
    | m where "m \<in> set (matches a k st)" "length (fst m) < length (fst st)"
        "st' \<in> set (matches (Star a) k m)"
    by (subst (asm) matches.simps(7)) auto
  then show ?case
  proof cases
    case 1
    then show ?thesis by simp
  next
    case 2
    from "7.IH"(1) [OF 2(1)] obtain u where "fst st = u @ fst m" by blast
    moreover from "7.IH"(2) [of m st'] 2 obtain v where "fst m = v @ fst st'" by auto
    ultimately show ?thesis by simp
  qed
next
  case (8 a k st)
  from "8.prems" obtain m where m: "m \<in> set (matches a (Suc k) st)" and "fst st' = fst m"
    by (auto simp: split_beta)
  with "8.IH" [OF m] show ?case by simp
qed

fun nullable :: "regex \<Rightarrow> bool" where
  "nullable Eps = True"
| "nullable (Class rs) = False"
| "nullable (NegClass rs) = False"
| "nullable Dot = False"
| "nullable (Seq a b) = (nullable a \<and> nullable b)"
| "nullable (Alt a b) = (nullable a \<or> nullable b)"
| "nullable (Star a) = True"
| "nullable (Group a) = nullable a"

lemma matches_length_le: "st' \<in> set (matches r k st) \<Longrightarrow> length (fst st') \<le> length (fst st)"
  using matches_suffix [of st' r k st] by auto

lemma matches_consumes:
  "\<not> nullable r \<Longrightarrow> st' \<in> set (matches r k st) \<Longrightarrow> length (fst st') < length (fst st)"
proof (induction r arbitrary: k st st')
  case (Seq a b)
  from Seq.prems(2) obtain m where m: "m \<in> set (matches a k st)"
    and t: "st' \<in> set (matches b (k + NumSubexp a) m)"
    by auto
  have le: "length (fst m) \<le> length (fst st)" "length (fst st') \<le> length (fst m)"
    using m t by (auto dest: matches_length_le)
  from Seq.prems(1) consider "\<not> nullable a" | "\<not> nullable b" by auto
  then show ?case
  proof cases
    case 1
    with Seq.IH(1) m le show ?thesis by fastforce
  next
    case 2
    with Seq.IH(2) t le show ?thesis by fastforce
  qed
next
  case (Group a)
  from Group.prems(2) obtain m where m: "m \<in> set (matches a (Suc k) st)" and "fst st' = fst m"
    by (auto simp: split_beta)
  with Group.IH [OF _ m] Group.prems(1) show ?case by simp
qed (use step_suffix in \<open>fastforce+\<close>)

lemma pattern_not_nullable: "\<not> nullable pattern"
  by (simp add: pattern_def tokenSpecs_def Plus_def Opt_def Lit_def OneOf_def digit_def)

lemma pattern_consumes:
  "st' \<in> set (matches pattern k st) \<Longrightarrow> length (fst st') < length (fst st)"
  using matches_consumes [OF pattern_not_nullable] .

subsection \<open>All matches of the combined pattern\<close>

text \<open>
  One element of the result of \<^verbatim>\<open>regex.FindAllStringSubmatchIndex(code, -1)\<close>: the
  bounds of the whole match, \<^verbatim>\<open>match[0]\<close> and \<^verbatim>\<open>match[1]\<close>, and the submatches, where
  \<open>submatch m g\<close> stands for the pair \<^verbatim>\<open>match[2*g]\<close>, \<^verbatim>\<open>match[2*g+1]\<close> and is \<open>None\<close>
  when the pair is \<open>-1, -1\<close>.
\<close>

record Match =
  fullStart :: nat
  fullEnd :: nat
  submatch :: submatches

text \<open>
  \<open>scan s off\<close> lists the successive non-overlapping matches in the input \<open>s\<close> that
  starts at offset \<open>off\<close> of the source text. Each search starts where the previous
  match ended; where the pattern does not match, the search moves on by one character.
\<close>

function scan :: "string \<Rightarrow> nat \<Rightarrow> Match list" where
  "scan [] off = []"
| "scan (c # cs) off =
     (case matches pattern 0 (c # cs, off, Map.empty) of
        [] \<Rightarrow>
          (let w = snd (DecodeRuneInString (c # cs)) in scan (drop w (c # cs)) (off + w))
      | (rest, e, sub) # _ \<Rightarrow>
          \<lparr>fullStart = off, fullEnd = e, submatch = sub\<rparr> # scan rest e)"
  by pat_completeness auto
termination
proof (relation "measure (\<lambda>(s, off). length s)")
  show "wf (measure (\<lambda>(s, off). length s))" by simp
next
  fix c cs off w
  assume "w = snd (DecodeRuneInString (c # cs))"
  then show "((drop w (c # cs), off + w), (c # cs, off)) \<in> measure (\<lambda>(s, off). length s)"
    using DecodeRune_width [of "c # cs"] by simp
next
  fix c cs off st sts rest x e sub
  assume "matches pattern 0 (c # cs, off, Map.empty) = st # sts" "(rest, x) = st" "(e, sub) = x"
  then have "(rest, e, sub) \<in> set (matches pattern 0 (c # cs, off, Map.empty))" by simp
  from pattern_consumes [OF this]
  show "((rest, e), (c # cs, off)) \<in> measure (\<lambda>(s, off). length s)" by simp
qed

definition FindAllStringSubmatchIndex :: "string \<Rightarrow> Match list" where
  "FindAllStringSubmatchIndex code = scan code 0"

subsection \<open>tokenize\<close>

text \<open>The Go slice expression \<^verbatim>\<open>code[i:j]\<close>.\<close>

definition slice :: "string \<Rightarrow> nat \<Rightarrow> nat \<Rightarrow> string" where
  "slice code i j = take (j - i) (drop i code)"

text \<open>
  The inner loop of \<^verbatim>\<open>tokenize\<close>: for the entry of index \<open>i\<close> it reads
  \<^verbatim>\<open>match[2*(i+1)]\<close> and \<^verbatim>\<open>match[2*(i+1)+1]\<close>, the submatch of the group \<open>i + 1\<close>, and
  takes the type of the first entry for which both differ from \<open>-1\<close>. When there is none,
  \<^verbatim>\<open>tokType\<close> keeps its initial value, the empty string.
\<close>

fun find_tokType :: "(string \<times> regex) list \<Rightarrow> nat \<Rightarrow> submatches \<Rightarrow> string" where
  "find_tokType [] i sub = []"
| "find_tokType ((ty, r) # specs) i sub =
     (case sub (i + 1) of Some (start, end) \<Rightarrow> ty | None \<Rightarrow> find_tokType specs (i + 1) sub)"

text \<open>
  The loop over the matches, with the local variables \<^verbatim>\<open>tokens\<close>, \<^verbatim>\<open>line\<close> and
  \<^verbatim>\<open>lineStart\<close> as arguments. A \<^verbatim>\<open>MISMATCH\<close> returns the error at once. Offsets are
  natural numbers; the column is their difference as a Go \<^verbatim>\<open>int\<close>.
\<close>

fun tokenize_loop ::
  "string \<Rightarrow> Match list \<Rightarrow> Token list \<Rightarrow> int \<Rightarrow> nat \<Rightarrow> error + (Token list \<times> int)" where
  "tokenize_loop code [] tokens line lineStart = Inr (tokens, line)"
| "tokenize_loop code (m # ms) tokens line lineStart =
     (let val = slice code (fullStart m) (fullEnd m);
          tokType = find_tokType tokenSpecs 0 (submatch m);
          col = int (fullStart m) - int lineStart
      in if tokType = ''SKIP'' then tokenize_loop code ms tokens line lineStart
         else if tokType = ''NEWLINE'' then tokenize_loop code ms tokens (line + 1) (fullEnd m)
         else if tokType = ''MISMATCH'' then Inl (LexError val line col)
         else tokenize_loop code ms
                (tokens @ [\<lparr>Type = tokType, Value = val, Line = line, Column = col\<rparr>])
                line lineStart)"

definition tokenize :: "string \<Rightarrow> error + Token list" where
  "tokenize code =
     (case tokenize_loop code (FindAllStringSubmatchIndex code) [] 1 0 of
        Inl e \<Rightarrow> Inl e
      | Inr (tokens, line) \<Rightarrow>
          Inr (tokens @ [\<lparr>Type = ''EOF'', Value = [], Line = line, Column = 0\<rparr>]))"

section \<open>Abstract syntax tree\<close>

text \<open>
  The Go structs of the AST. \<^verbatim>\<open>Node\<close> is the empty interface, so a \<open>Node\<close> holds a
  value of any type: one of the structs below or any other value (\<open>OtherNode\<close>).
  Fields whose Go names coincide across structs are told apart by a prefix:
  \<open>ParamType\<close> and \<open>ParamName\<close> are \<^verbatim>\<open>Param.Type\<close> and \<^verbatim>\<open>Param.Name\<close>, \<open>ExprValue\<close> is
  \<^verbatim>\<open>Expression.Value\<close>, \<open>VarName\<close> is \<^verbatim>\<open>VarDecl.Name\<close>, \<open>ClassName\<close> is \<^verbatim>\<open>ClassDecl.Name\<close>.
\<close>

record Param =
  ParamType :: string
  ParamName :: string

record Expression =
  ExprValue :: string

record VarDecl =
  VarType :: string
  VarName :: string
  Default :: Expression

record Statement =
  Expr :: Expression

datatype FunctionDecl =
    FunctionDecl (RetType: string) (Name: string) (Params: "Param list") (Body: "Node list")
and ClassDecl =
    ClassDecl (ClassName: string) (Parent: string) (Members: "Node list")
and Program =
    Program (Declarations: "Node list")
and Node =
    FunctionDeclNode FunctionDecl
  | ClassDeclNode ClassDecl
  | VarDeclNode VarDecl
  | StatementNode Statement
  | ProgramNode Program
  | ParamNode Param
  | ExpressionNode Expression
  | OtherNode string

text \<open>The dynamic type tests \<^verbatim>\<open>n.(VarDecl)\<close>, \<^verbatim>\<open>n.(Statement)\<close> and so on.\<close>

fun is_FunctionDecl :: "Node \<Rightarrow> bool" where
  "is_FunctionDecl (FunctionDeclNode _) = True"
| "is_FunctionDecl _ = False"

fun is_ClassDecl :: "Node \<Rightarrow> bool" where
  "is_ClassDecl (ClassDeclNode _) = True"
| "is_ClassDecl _ = False"

fun is_VarDecl :: "Node \<Rightarrow> bool" where
  "is_VarDecl (VarDeclNode _) = True"
| "is_VarDecl _ = False"

fun is_Statement :: "Node \<Rightarrow> bool" where
  "is_Statement (StatementNode _) = True"
| "is_Statement _ = False"

section \<open>Parser\<close>

text \<open>
  A panic unwinds the whole parse, so every parser operation returns either the fault or
  its result together with the parser after it; \<open>ebind\<close> passes a fault on.
\<close>

definition ebind :: "error + 'a \<Rightarrow> ('a \<Rightarrow> error + 'b) \<Rightarrow> error + 'b" where
  "ebind m f = (case m of Inl e \<Rightarrow> Inl e | Inr x \<Rightarrow> f x)"

lemma ebind_cong [fundef_cong]:
  "m = m' \<Longrightarrow> (\<And>x. m' = Inr x \<Longrightarrow> f x = f' x) \<Longrightarrow> ebind m f = ebind m' f'"
  by (simp add: ebind_def split: sum.splits)

record Parser =
  tokens :: "Token list"
  pos :: nat

definition NewParser :: "Token list \<Rightarrow> Parser" where
  "NewParser toks = \<lparr>tokens = toks, pos = 0\<rparr>"

text \<open>The slice read \<^verbatim>\<open>p.tokens[i]\<close>, which panics out of range.\<close>

definition token_at :: "Parser \<Rightarrow> nat \<Rightarrow> error + Token" where
  "token_at p i =
     (if i < length (tokens p) then Inr (tokens p ! i)
      else Inl (IndexOutOfRange i (length (tokens p))))"

definition current :: "Parser \<Rightarrow> error + Token" where
  "current p = token_at p (pos p)"

definition consume :: "Parser \<Rightarrow> string list \<Rightarrow> error + (Token \<times> Parser)" where
  "consume p expectedType =
     ebind (current p) (\<lambda>tok.
       if expectedType \<noteq> [] \<and> \<not> list_ex (\<lambda>typ. Type tok = typ \<or> Value tok = typ) expectedType
       then Inl (ExpectedError expectedType tok)
       else Inr (tok, p\<lparr>pos := pos p + 1\<rparr>))"

definition parseExpression :: "Parser \<Rightarrow> error + (Expression \<times> Parser)" where
  "parseExpression p =
     ebind (consume p []) (\<lambda>(tok, p1).
       if Type tok = ''NUMBER'' \<or> Type tok = ''STRING'' \<or> Type tok = ''ID''
       then Inr (\<lparr>ExprValue = Value tok\<rparr>, p1)
       else Inl (UnexpectedTokenError tok))"

text \<open>
  The lookahead \<^verbatim>\<open>p.current().Type == "ID" && p.tokens[p.pos+1].Type == "ID"\<close>: the
  second operand is read only when the first holds.
\<close>

definition two_ids :: "Parser \<Rightarrow> error + bool" where
  "two_ids p =
     ebind (current p) (\<lambda>c.
       if Type c = ''ID'' then ebind (token_at p (pos p + 1)) (\<lambda>n. Inr (Type n = ''ID''))
       else Inr False)"

definition parseStatement :: "Parser \<Rightarrow> error + (Node \<times> Parser)" where
  "parseStatement p =
     ebind (two_ids p) (\<lambda>decl.
       if decl then
         ebind (consume p [''ID'']) (\<lambda>(varType, p1).
         ebind (consume p1 [''ID'']) (\<lambda>(varName, p2).
         ebind (current p2) (\<lambda>c.
         ebind (if Value c = ''=''
                then ebind (consume p2 [''OP'']) (\<lambda>(_, p3). parseExpression p3)
                else Inr (\<lparr>ExprValue = []\<rparr>, p2)) (\<lambda>(def, p4).
         ebind (consume p4 [''SEMICOLON'']) (\<lambda>(_, p5).
           Inr (VarDeclNode \<lparr>VarType = Value varType, VarName = Value varName, Default = def\<rparr>,
                p5))))))
       else
         ebind (parseExpression p) (\<lambda>(expr, p1).
         ebind (consume p1 [''SEMICOLON'']) (\<lambda>(_, p2).
           Inr (StatementNode \<lparr>Expr = expr\<rparr>, p2))))"

subsection \<open>Progress of the parser operations\<close>

text \<open>
  An operation that returns has read a token inside the sequence and has moved the cursor
  forward; the loops of the parser terminate for this reason.
\<close>

lemma ebind_Inr: "ebind m f = Inr y \<longleftrightarrow> (\<exists>x. m = Inr x \<and> f x = Inr y)"
  by (cases m) (simp_all add: ebind_def)

lemma consume_Inr:
  "consume p ex = Inr (tok, p') \<Longrightarrow>
     pos p < length (tokens p) \<and> tok = tokens p ! pos p \<and> p' = p\<lparr>pos := pos p + 1\<rparr>"
  by (auto simp: consume_def current_def token_at_def ebind_Inr split: if_splits)

lemma parseExpression_Inr:
  "parseExpression p = Inr (e, p') \<Longrightarrow>
     pos p < length (tokens p) \<and> p' = p\<lparr>pos := pos p + 1\<rparr>"
  by (auto simp: parseExpression_def ebind_Inr split: if_splits dest: consume_Inr)

lemma parseStatement_Inr:
  "parseStatement p = Inr (n, p') \<Longrightarrow>
     pos p < length (tokens p) \<and> tokens p' = tokens p \<and> pos p < pos p'"
  unfolding parseStatement_def
  by (auto simp: ebind_Inr split: if_splits dest!: consume_Inr parseExpression_Inr)

function parseParams_loop :: "Parser \<Rightarrow> Param list \<Rightarrow> error + (Param list \<times> Parser)" where
  "parseParams_loop p params =
     ebind (consume p [''ID'']) (\<lambda>(paramType, p1).
     ebind (consume p1 [''ID'']) (\<lambda>(paramName, p2).
     ebind (current p2) (\<lambda>c.
       if Type c = ''COMMA''
       then ebind (consume p2 [''COMMA'']) (\<lambda>(_, p3).
              parseParams_loop p3
                (params @ [\<lparr>ParamType = Value paramType, ParamName = Value paramName\<rparr>]))
       else Inr (params @ [\<lparr>ParamType = Value paramType, ParamName = Value paramName\<rparr>], p2))))"
  by pat_completeness auto
termination
  by (relation "measure (\<lambda>(p, params). length (tokens p) - pos p)")
     (auto dest!: consume_Inr)

declare parseParams_loop.simps [simp del]

definition parseParams :: "Parser \<Rightarrow> error + (Param list \<times> Parser)" where
  "parseParams p =
     ebind (current p) (\<lambda>c.
       if Type c = ''RPAREN'' then Inr ([], p) else parseParams_loop p [])"

function parseBlock_loop :: "Parser \<Rightarrow> Node list \<Rightarrow> error + (Node list \<times> Parser)" where
  "parseBlock_loop p stmts =
     ebind (current p) (\<lambda>c.
       if Type c \<noteq> ''RBRACE''
       then ebind (parseStatement p) (\<lambda>(stmt, p1). parseBlock_loop p1 (stmts @ [stmt]))
       else Inr (stmts, p))"
  by pat_completeness auto
termination
  by (relation "measure (\<lambda>(p, stmts). length (tokens p) - pos p)")
     (auto dest!: parseStatement_Inr)

declare parseBlock_loop.simps [simp del]

definition parseBlock :: "Parser \<Rightarrow> error + (Node list \<times> Parser)" where
  "parseBlock p =
     ebind (consume p [''LBRACE'']) (\<lambda>(_, p1).
     ebind (parseBlock_loop p1 []) (\<lambda>(stmts, p2).
     ebind (consume p2 [''RBRACE'']) (\<lambda>(_, p3).
       Inr (stmts, p3))))"

definition parseFunction :: "Parser \<Rightarrow> error + (FunctionDecl \<times> Parser)" where
  "parseFunction p =
     ebind (consume p [''ID'']) (\<lambda>(retType, p1).
     ebind (consume p1 [''ID'']) (\<lambda>(name, p2).
     ebind (consume p2 [''LPAREN'']) (\<lambda>(_, p3).
     ebind (parseParams p3) (\<lambda>(params, p4).
     ebind (consume p4 [''RPAREN'']) (\<lambda>(_, p5).
     ebind (parseBlock p5) (\<lambda>(body, p6).
       Inr (FunctionDecl (Value retType) (Value name) params body, p6)))))))"

definition parseClass :: "Parser \<Rightarrow> error + (ClassDecl \<times> Parser)" where
  "parseClass p =
     ebind (consume p [''ID'']) (\<lambda>(_, p1).
     ebind (consume p1 [''ID'']) (\<lambda>(name, p2).
     ebind (current p2) (\<lambda>c.
     ebind (if Type c = ''COLON''
            then ebind (consume p2 [''COLON'']) (\<lambda>(_, p3).
                 ebind (consume p3 [''ID'']) (\<lambda>(parent, p4). Inr (Value parent, p4)))
            else Inr ([], p2)) (\<lambda>(parent, p5).
     ebind (parseBlock p5) (\<lambda>(members, p6).
       Inr (ClassDecl (Value name) parent members, p6))))))"

lemma parseParams_loop_Inr:
  "parseParams_loop p params = Inr (ps, p') \<Longrightarrow> tokens p' = tokens p \<and> pos p \<le> pos p'"
proof (induction p params arbitrary: ps p' rule: parseParams_loop.induct)
  case (1 p params)
  from "1.prems" obtain t1 p1 t2 p2 c where
    c1: "consume p [''ID''] = Inr (t1, p1)" and
    c2: "consume p1 [''ID''] = Inr (t2, p2)" and
    c: "current p2 = Inr c" and
    r: "(if Type c = ''COMMA''
         then ebind (consume p2 [''COMMA'']) (\<lambda>(_, p3).
                parseParams_loop p3 (params @ [\<lparr>ParamType = Value t1, ParamName = Value t2\<rparr>]))
         else Inr (params @ [\<lparr>ParamType = Value t1, ParamName = Value t2\<rparr>], p2)) = Inr (ps, p')"
    by (subst (asm) parseParams_loop.simps) (auto simp: ebind_Inr)
  have p2: "tokens p2 = tokens p \<and> pos p \<le> pos p2"
    using c1 c2 by (auto dest!: consume_Inr)
  show ?case
  proof (cases "Type c = ''COMMA''")
    case True
    with r obtain t3 p3 where
      c3: "consume p2 [''COMMA''] = Inr (t3, p3)" and
      l: "parseParams_loop p3 (params @ [\<lparr>ParamType = Value t1, ParamName = Value t2\<rparr>]) = Inr (ps, p')"
      by (auto simp: ebind_Inr)
    from "1.IH" [OF c1 refl c2 refl c True c3 refl l]
    have "tokens p' = tokens p3 \<and> pos p3 \<le> pos p'" .
    with p2 c3 show ?thesis by (auto dest!: consume_Inr)
  next
    case False
    with r p2 show ?thesis by simp
  qed
qed

lemma parseParams_Inr:
  "parseParams p = Inr (ps, p') \<Longrightarrow> tokens p' = tokens p \<and> pos p \<le> pos p'"
  by (auto simp: parseParams_def ebind_Inr split: if_splits dest: parseParams_loop_Inr)

lemma parseBlock_loop_Inr:
  "parseBlock_loop p stmts = Inr (ss, p') \<Longrightarrow> tokens p' = tokens p \<and> pos p \<le> pos p'"
proof (induction p stmts arbitrary: ss p' rule: parseBlock_loop.induct)
  case (1 p stmts)
  from "1.prems" obtain c where
    c: "current p = Inr c" and
    r: "(if Type c \<noteq> ''RBRACE''
         then ebind (parseStatement p) (\<lambda>(stmt, p1). parseBlock_loop p1 (stmts @ [stmt]))
         else Inr (stmts, p)) = Inr (ss, p')"
    by (subst (asm) parseBlock_loop.simps) (auto simp: ebind_Inr)
  show ?case
  proof (cases "Type c \<noteq> ''RBRACE''")
    case True
    with r obtain stmt p1 where
      s: "parseStatement p = Inr (stmt, p1)" and
      l: "parseBlock_loop p1 (stmts @ [stmt]) = Inr (ss, p')"
      by (auto simp: ebind_Inr)
    from "1.IH" [OF c True s refl l]
    have "tokens p' = tokens p1 \<and> pos p1 \<le> pos p'" .
    with s show ?thesis by (auto dest!: parseStatement_Inr)
  next
    case False
    with r show ?thesis by simp
  qed
qed

lemma parseBlock_Inr:
  "parseBlock p = Inr (ss, p') \<Longrightarrow> tokens p' = tokens p \<and> pos p < pos p'"
  by (auto simp: parseBlock_def ebind_Inr dest!: consume_Inr parseBlock_loop_Inr)

lemma parseFunction_Inr:
  "parseFunction p = Inr (d, p') \<Longrightarrow>
     pos p < length (tokens p) \<and> tokens p' = tokens p \<and> pos p < pos p'"
  by (auto simp: parseFunction_def ebind_Inr dest!: consume_Inr parseParams_Inr parseBlock_Inr)

lemma parseClass_Inr:
  "parseClass p = Inr (d, p') \<Longrightarrow>
     pos p < length (tokens p) \<and> tokens p' = tokens p \<and> pos p < pos p'"
  by (auto simp: parseClass_def ebind_Inr split: if_splits dest!: consume_Inr parseBlock_Inr)

function parse_loop :: "Parser \<Rightarrow> Node list \<Rightarrow> error + (Node list \<times> Parser)" where
  "parse_loop p decls =
     ebind (current p) (\<lambda>c.
       if Type c \<noteq> ''EOF''
       then if Value c = ''class''
            then ebind (parseClass p) (\<lambda>(d, p1). parse_loop p1 (decls @ [ClassDeclNode d]))
            else ebind (parseFunction p) (\<lambda>(d, p1). parse_loop p1 (decls @ [FunctionDeclNode d]))
       else Inr (decls, p))"
  by pat_completeness auto
termination
  by (relation "measure (\<lambda>(p, decls). length (tokens p) - pos p)")
     (auto dest!: parseClass_Inr parseFunction_Inr)

declare parse_loop.simps [simp del]

definition parse :: "Parser \<Rightarrow> error + Program" where
  "parse p = ebind (parse_loop p []) (\<lambda>(decls, _). Inr (Program decls))"

section \<open>Code generator\<close>

text \<open>
  The generator's fields \<^verbatim>\<open>ast\<close>, \<^verbatim>\<open>code\<close> (the \<^verbatim>\<open>strings.Builder\<close>) and
  \<^verbatim>\<open>indent\<close> are threaded through every emitter.
\<close>

record CodeGenerator =
  ast :: Program
  code :: string
  indent :: string

definition NewCodeGenerator :: "Program \<Rightarrow> CodeGenerator" where
  "NewCodeGenerator a = \<lparr>ast = a, code = [], indent = []\<rparr>"

definition WriteString :: "CodeGenerator \<Rightarrow> string \<Rightarrow> CodeGenerator" where
  "WriteString cg s = cg\<lparr>code := code cg @ s\<rparr>"

text \<open>\<^verbatim>\<open>strings.Join\<close>.\<close>

fun Join :: "string list \<Rightarrow> string \<Rightarrow> string" where
  "Join [] sep = []"
| "Join [x] sep = x"
| "Join (x # y # ys) sep = x @ sep @ Join (y # ys) sep"

definition emitIncludes :: "CodeGenerator \<Rightarrow> CodeGenerator" where
  "emitIncludes cg =
     WriteString cg
       ''#include <stdio.h>\<newline>#include <stdlib.h>\<newline>#include <string.h>\<newline>\<newline>''"

text \<open>\<^verbatim>\<open>fmt.Sprintf("%s %s", param.Type, param.Name)\<close>.\<close>

definition param_text :: "Param \<Rightarrow> string" where
  "param_text param = ParamType param @ '' '' @ ParamName param"

text \<open>
  In the \<^verbatim>\<open>VarDecl\<close> case both branches of the \<^verbatim>\<open>strconv.ParseFloat\<close> test append the
  same text, so the test has no effect and is left out.
\<close>

fun emitStatement :: "CodeGenerator \<Rightarrow> Node \<Rightarrow> CodeGenerator" where
  "emitStatement cg (VarDeclNode s) =
     (let line = indent cg @ VarType s @ '' '' @ VarName s;
          line1 = (if ExprValue (Default s) \<noteq> [] then line @ '' = '' @ ExprValue (Default s)
                   else line)
      in WriteString cg (line1 @ '';\<newline>''))"
| "emitStatement cg (StatementNode s) =
     WriteString cg (indent cg @ ExprValue (Expr s) @ '';\<newline>'')"
| "emitStatement cg _ =
     WriteString cg (indent cg @ ''// Unknown statement\<newline>'')"

definition emitFunction :: "CodeGenerator \<Rightarrow> FunctionDecl \<Rightarrow> CodeGenerator" where
  "emitFunction cg fn =
     (let params = map param_text (Params fn);
          cg1 = WriteString cg
                  (RetType fn @ '' '' @ Name fn @ ''('' @ Join params '', '' @ '') {\<newline>'');
          cg2 = cg1\<lparr>indent := ''    ''\<rparr>;
          cg3 = foldl emitStatement cg2 (Body fn)
      in WriteString cg3 ''}\<newline>\<newline>'')"

text \<open>The two loops of \<^verbatim>\<open>emitClass\<close> over the members: the fields, then the methods.\<close>

fun emitField :: "CodeGenerator \<Rightarrow> Node \<Rightarrow> CodeGenerator" where
  "emitField cg (VarDeclNode v) =
     WriteString cg (''    '' @ VarType v @ '' '' @ VarName v @ '';\<newline>'')"
| "emitField cg _ = cg"

fun emitMethod :: "ClassDecl \<Rightarrow> CodeGenerator \<Rightarrow> Node \<Rightarrow> CodeGenerator" where
  "emitMethod cls cg (FunctionDeclNode fn) =
     (let params = (ClassName cls @ ''* this'') # map param_text (Params fn);
          cg1 = WriteString cg
                  (RetType fn @ '' '' @ ClassName cls @ ''_'' @ Name fn @ ''(''
                   @ Join params '', '' @ '') {\<newline>'');
          cg2 = cg1\<lparr>indent := ''    ''\<rparr>;
          cg3 = foldl emitStatement cg2 (Body fn)
      in WriteString cg3 ''}\<newline>\<newline>'')"
| "emitMethod cls cg _ = cg"

definition emitClass :: "CodeGenerator \<Rightarrow> ClassDecl \<Rightarrow> CodeGenerator" where
  "emitClass cg cls =
     (let cg1 = WriteString cg (''typedef struct '' @ ClassName cls @ '' {\<newline>'');
          cg2 = foldl emitField cg1 (Members cls);
          cg3 = WriteString cg2 (''} '' @ ClassName cls @ '';\<newline>\<newline>'')
      in foldl (emitMethod cls) cg3 (Members cls))"

text \<open>The type switch of \<^verbatim>\<open>generate\<close>, which has no default case.\<close>

fun emitDeclaration :: "CodeGenerator \<Rightarrow> Node \<Rightarrow> CodeGenerator" where
  "emitDeclaration cg (FunctionDeclNode d) = emitFunction cg d"
| "emitDeclaration cg (ClassDeclNode d) = emitClass cg d"
| "emitDeclaration cg _ = cg"

definition generate :: "CodeGenerator \<Rightarrow> string" where
  "generate cg = code (foldl emitDeclaration (emitIncludes cg) (Declarations (ast cg)))"

section \<open>The pipeline\<close>

text \<open>
  \<^verbatim>\<open>main\<close> without its file handling: lexing, parsing and code generation, stopping
  at the first fault.
\<close>

definition compile :: "string \<Rightarrow> error + string" where
  "compile source =
     ebind (tokenize source) (\<lambda>toks.
     ebind (parse (NewParser toks)) (\<lambda>a.
       Inr (generate (NewCodeGenerator a))))"

section \<open>Vocabulary of the properties\<close>

subsection \<open>Sample token sequences\<close>

text \<open>
  The token sequences of the two sample programs of the specification, each token with
  the category that \<^verbatim>\<open>tokenSpecs\<close> names for its text and with its position:
  \<^verbatim>\<open>int add(int a, int b) { return a; }\<close> and
  \<^verbatim>\<open>class Foo : Bar { int x; int get() { x; } }\<close>.
\<close>

definition add_tokens :: "Token list" where
  "add_tokens =
     [\<lparr>Type = ''ID'', Value = ''int'', Line = 1, Column = 0\<rparr>,
      \<lparr>Type = ''ID'', Value = ''add'', Line = 1, Column = 4\<rparr>,
      \<lparr>Type = ''LPAREN'', Value = ''('', Line = 1, Column = 7\<rparr>,
      \<lparr>Type = ''ID'', Value = ''int'', Line = 1, Column = 8\<rparr>,
      \<lparr>Type = ''ID'', Value = ''a'', Line = 1, Column = 12\<rparr>,
      \<lparr>Type = ''COMMA'', Value = '','', Line = 1, Column = 13\<rparr>,
      \<lparr>Type = ''ID'', Value = ''int'', Line = 1, Column = 15\<rparr>,
      \<lparr>Type = ''ID'', Value = ''b'', Line = 1, Column = 19\<rparr>,
      \<lparr>Type = ''RPAREN'', Value = '')'', Line = 1, Column = 20\<rparr>,
      \<lparr>Type = ''LBRACE'', Value = ''{'', Line = 1, Column = 22\<rparr>,
      \<lparr>Type = ''ID'', Value = ''return'', Line = 1, Column = 24\<rparr>,
      \<lparr>Type = ''ID'', Value = ''a'', Line = 1, Column = 31\<rparr>,
      \<lparr>Type = ''SEMICOLON'', Value = '';'', Line = 1, Column = 32\<rparr>,
      \<lparr>Type = ''RBRACE'', Value = ''}'', Line = 1, Column = 34\<rparr>,
      \<lparr>Type = ''EOF'', Value = [], Line = 1, Column = 0\<rparr>]"

definition Foo_tokens :: "Token list" where
  "Foo_tokens =
     [\<lparr>Type = ''ID'', Value = ''class'', Line = 1, Column = 0\<rparr>,
      \<lparr>Type = ''ID'', Value = ''Foo'', Line = 1, Column = 6\<rparr>,
      \<lparr>Type = ''COLON'', Value = '':'', Line = 1, Column = 10\<rparr>,
      \<lparr>Type = ''ID'', Value = ''Bar'', Line = 1, Column = 12\<rparr>,
      \<lparr>Type = ''LBRACE'', Value = ''{'', Line = 1, Column = 16\<rparr>,
      \<lparr>Type = ''ID'', Value = ''int'', Line = 1, Column = 18\<rparr>,
      \<lparr>Type = ''ID'', Value = ''x'', Line = 1, Column = 22\<rparr>,
      \<lparr>Type = ''SEMICOLON'', Value = '';'', Line = 1, Column = 23\<rparr>,
      \<lparr>Type = ''ID'', Value = ''int'', Line = 1, Column = 25\<rparr>,
      \<lparr>Type = ''ID'', Value = ''get'', Line = 1, Column = 29\<rparr>,
      \<lparr>Type = ''LPAREN'', Value = ''('', Line = 1, Column = 32\<rparr>,
      \<lparr>Type = ''RPAREN'', Value = '')'', Line = 1, Column = 33\<rparr>,
      \<lparr>Type = ''LBRACE'', Value = ''{'', Line = 1, Column = 35\<rparr>,
      \<lparr>Type = ''ID'', Value = ''x'', Line = 1, Column = 37\<rparr>,
      \<lparr>Type = ''SEMICOLON'', Value = '';'', Line = 1, Column = 38\<rparr>,
      \<lparr>Type = ''RBRACE'', Value = ''}'', Line = 1, Column = 40\<rparr>,
      \<lparr>Type = ''RBRACE'', Value = ''}'', Line = 1, Column = 42\<rparr>,
      \<lparr>Type = ''EOF'', Value = [], Line = 1, Column = 0\<rparr>]"

text \<open>The number of newline characters of a text.\<close>

definition newlines :: "string \<Rightarrow> nat" where
  "newlines s = length (filter (\<lambda>c. c = CHR 0x0A) s)"

subsection \<open>Parser\<close>

text \<open>
  The cursor of a parser is \<open>in_bounds\<close> when it points into the token sequence and the
  sequence ends with the token \<^verbatim>\<open>EOF\<close> of empty text. The explicit faults are the two
  \<^verbatim>\<open>panic\<close> calls of the parser, as opposed to an out-of-range slice read. A result
  \<open>stays_in_bounds\<close> when it is an explicit fault or leaves the cursor in bounds.
\<close>

definition in_bounds :: "Parser \<Rightarrow> bool" where
  "in_bounds p \<longleftrightarrow>
     pos p < length (tokens p) \<and> Type (last (tokens p)) = ''EOF'' \<and> Value (last (tokens p)) = []"

fun explicit_fault :: "error \<Rightarrow> bool" where
  "explicit_fault (ExpectedError ex tok) = True"
| "explicit_fault (UnexpectedTokenError tok) = True"
| "explicit_fault _ = False"

definition stays_in_bounds :: "error + ('a \<times> Parser) \<Rightarrow> bool" where
  "stays_in_bounds r = (case r of Inl e \<Rightarrow> explicit_fault e | Inr (x, p') \<Rightarrow> in_bounds p')"

subsection \<open>Code generator\<close>

text \<open>An emitter only appends to the text generated so far.\<close>

definition appends :: "CodeGenerator \<Rightarrow> CodeGenerator \<Rightarrow> bool" where
  "appends cg cg' \<longleftrightarrow> (\<exists>s. code cg' = code cg @ s)"

text \<open>
  A step \<open>g\<close> of the generator is a \<open>frame\<close> step when it neither reads the text generated
  so far nor the \<^verbatim>\<open>ast\<close> field: run on a generator with a longer text in front and another
  \<^verbatim>\<open>ast\<close>, it does the same and leaves both as they are.
\<close>

definition frame :: "(CodeGenerator \<Rightarrow> CodeGenerator) \<Rightarrow> bool" where
  "frame g \<longleftrightarrow>
     (\<forall>s a cg. g (cg\<lparr>ast := a, code := s @ code cg\<rparr>) = (g cg)\<lparr>ast := a, code := s @ code (g cg)\<rparr>)"

section \<open>Auxiliary lemmas\<close>

subsection \<open>The groups of the combined pattern\<close>

text \<open>
  The combined pattern has 18 capturing groups for the 16 entries of \<^verbatim>\<open>tokenSpecs\<close>.
  From \<^verbatim>\<open>STRING\<close> on, the group of the entry of index \<open>i\<close> is not the group \<open>i + 1\<close>
  that the inner loop of \<^verbatim>\<open>tokenize\<close> reads for it.
\<close>

lemma pattern_NumSubexp: "NumSubexp pattern = 18"
  by (simp add: pattern_def tokenSpecs_def Plus_def Opt_def Lit_def OneOf_def digit_def)

lemma tokenSpecs_group_numbers:
  "group_numbers tokenSpecs 0 =
     [(''NUMBER'', 1), (''STRING'', 3), (''ID'', 5), (''OP'', 6), (''LPAREN'', 7),
      (''RPAREN'', 8), (''LBRACE'', 9), (''RBRACE'', 10), (''LANGLE'', 11), (''RANGLE'', 12),
      (''COLON'', 13), (''SEMICOLON'', 14), (''COMMA'', 15), (''NEWLINE'', 16), (''SKIP'', 17),
      (''MISMATCH'', 18)]"
  by (simp add: tokenSpecs_def Plus_def Opt_def Lit_def OneOf_def digit_def)

subsection \<open>Lexing the include prelude\<close>

text \<open>
  Whatever follows it, the first line of the prelude is lexed up to its newline, where
  \<^verbatim>\<open>tokenize\<close> returns an error; the first match is the character \<^verbatim>\<open>#\<close>, for which
  the last group of the pattern, that of \<^verbatim>\<open>MISMATCH\<close>, is set.
\<close>

lemma tokenize_prelude:
  "tokenize (''#include <stdio.h>'' @ CHR 0x0A # rest) = Inl (LexError [CHR 0x0A] 1 18)"
  by (simp add: tokenize_def FindAllStringSubmatchIndex_def pattern_def tokenSpecs_def Plus_def
        Opt_def Lit_def OneOf_def digit_def step_def in_class_def matches.simps(7) slice_def)

lemma scan_hash:
  "\<exists>m ms. scan (CHR ''#'' # rest) 0 = m # ms \<and> fullStart m = 0 \<and> fullEnd m = 1
      \<and> submatch m 18 = Some (0, 1) \<and> find_tokType tokenSpecs 0 (submatch m) = []"
  by (simp add: pattern_def tokenSpecs_def Plus_def Opt_def Lit_def OneOf_def digit_def
        step_def in_class_def)

subsection \<open>Nodes built by the parser\<close>

lemma parseStatement_kind:
  "parseStatement p = Inr (n, p') \<Longrightarrow> is_VarDecl n \<or> is_Statement n"
  unfolding parseStatement_def
  by (auto simp: ebind_Inr split: if_splits)

lemma parseBlock_loop_kind:
  "parseBlock_loop p stmts = Inr (ss, p') \<Longrightarrow>
     \<forall>n \<in> set stmts. is_VarDecl n \<or> is_Statement n \<Longrightarrow>
     \<forall>n \<in> set ss. is_VarDecl n \<or> is_Statement n"
proof (induction p stmts arbitrary: ss p' rule: parseBlock_loop.induct)
  case (1 p stmts)
  from "1.prems"(1) obtain c where
    c: "current p = Inr c" and
    r: "(if Type c \<noteq> ''RBRACE''
         then ebind (parseStatement p) (\<lambda>(stmt, p1). parseBlock_loop p1 (stmts @ [stmt]))
         else Inr (stmts, p)) = Inr (ss, p')"
    by (subst (asm) parseBlock_loop.simps) (auto simp: ebind_Inr)
  show ?case
  proof (cases "Type c \<noteq> ''RBRACE''")
    case True
    with r obtain stmt p1 where
      s: "parseStatement p = Inr (stmt, p1)" and
      l: "parseBlock_loop p1 (stmts @ [stmt]) = Inr (ss, p')"
      by (auto simp: ebind_Inr)
    have "\<forall>n \<in> set (stmts @ [stmt]). is_VarDecl n \<or> is_Statement n"
      using "1.prems"(2) parseStatement_kind [OF s] by auto
    with "1.IH" [OF c True s refl l] show ?thesis .
  next
    case False
    with r "1.prems"(2) show ?thesis by simp
  qed
qed

lemma parseBlock_kind:
  "parseBlock p = Inr (ss, p') \<Longrightarrow> \<forall>n \<in> set ss. is_VarDecl n \<or> is_Statement n"
  unfolding parseBlock_def
  by (auto simp: ebind_Inr dest!: parseBlock_loop_kind)

lemma parseClass_kind:
  "parseClass p = Inr (cls, p') \<Longrightarrow> \<forall>n \<in> set (Members cls). is_VarDecl n \<or> is_Statement n"
  unfolding parseClass_def
  by (auto simp: ebind_Inr dest!: parseBlock_kind)

lemma parse_loop_kind:
  "parse_loop p decls = Inr (ds, p') \<Longrightarrow>
     \<forall>cls. ClassDeclNode cls \<in> set decls \<longrightarrow> (\<forall>n \<in> set (Members cls). is_VarDecl n \<or> is_Statement n) \<Longrightarrow>
     \<forall>cls. ClassDeclNode cls \<in> set ds \<longrightarrow> (\<forall>n \<in> set (Members cls). is_VarDecl n \<or> is_Statement n)"
proof (induction p decls arbitrary: ds p' rule: parse_loop.induct)
  case (1 p decls)
  from "1.prems"(1) obtain c where
    c: "current p = Inr c" and
    r: "(if Type c \<noteq> ''EOF''
         then if Value c = ''class''
              then ebind (parseClass p) (\<lambda>(d, p1). parse_loop p1 (decls @ [ClassDeclNode d]))
              else ebind (parseFunction p) (\<lambda>(d, p1). parse_loop p1 (decls @ [FunctionDeclNode d]))
         else Inr (decls, p)) = Inr (ds, p')"
    by (subst (asm) parse_loop.simps) (auto simp: ebind_Inr)
  show ?case
  proof (cases "Type c \<noteq> ''EOF''")
    case notEOF: True
    show ?thesis
    proof (cases "Value c = ''class''")
      case True
      with r notEOF obtain d p1 where
        s: "parseClass p = Inr (d, p1)" and
        l: "parse_loop p1 (decls @ [ClassDeclNode d]) = Inr (ds, p')"
        by (auto simp: ebind_Inr)
      have "\<forall>cls. ClassDeclNode cls \<in> set (decls @ [ClassDeclNode d]) \<longrightarrow>
              (\<forall>n \<in> set (Members cls). is_VarDecl n \<or> is_Statement n)"
        using "1.prems"(2) parseClass_kind [OF s] by auto
      with "1.IH"(1) [OF c notEOF True s refl l] show ?thesis .
    next
      case False
      with r notEOF obtain d p1 where
        s: "parseFunction p = Inr (d, p1)" and
        l: "parse_loop p1 (decls @ [FunctionDeclNode d]) = Inr (ds, p')"
        by (auto simp: ebind_Inr)
      have "\<forall>cls. ClassDeclNode cls \<in> set (decls @ [FunctionDeclNode d]) \<longrightarrow>
              (\<forall>n \<in> set (Members cls). is_VarDecl n \<or> is_Statement n)"
        using "1.prems"(2) by auto
      with "1.IH"(2) [OF c notEOF False s refl l] show ?thesis .
    qed
  next
    case False
    with r "1.prems"(2) show ?thesis by simp
  qed
qed

lemma emitMethod_skip: "is_VarDecl n \<or> is_Statement n \<Longrightarrow> emitMethod cls cg n = cg"
  by (cases n) simp_all

lemma foldl_emitMethod_skip:
  "\<forall>n \<in> set ms. is_VarDecl n \<or> is_Statement n \<Longrightarrow> foldl (emitMethod cls) cg ms = cg"
  by (induction ms arbitrary: cg) (simp_all add: emitMethod_skip)

subsection \<open>The cursor stays inside the token sequence\<close>

lemma stays_in_bounds_ebind:
  "stays_in_bounds m \<Longrightarrow>
     (\<And>x p'. m = Inr (x, p') \<Longrightarrow> in_bounds p' \<Longrightarrow> stays_in_bounds (f x p')) \<Longrightarrow>
     stays_in_bounds (ebind m (case_prod f))"
  by (cases m) (auto simp: stays_in_bounds_def ebind_def)

lemma stays_in_bounds_Inr: "in_bounds p \<Longrightarrow> stays_in_bounds (Inr (x, p))"
  by (simp add: stays_in_bounds_def)

lemma current_in_bounds: "in_bounds p \<Longrightarrow> current p = Inr (tokens p ! pos p)"
  by (simp add: in_bounds_def current_def token_at_def)

lemma not_last_in_bounds:
  assumes "in_bounds p" and "Type (tokens p ! pos p) \<noteq> ''EOF'' \<or> Value (tokens p ! pos p) \<noteq> []"
  shows "in_bounds (p\<lparr>pos := pos p + 1\<rparr>)"
proof -
  from assms(1) have ne: "tokens p \<noteq> []" by (auto simp: in_bounds_def)
  have "pos p \<noteq> length (tokens p) - 1"
  proof
    assume "pos p = length (tokens p) - 1"
    then have "tokens p ! pos p = last (tokens p)" using ne by (simp add: last_conv_nth)
    with assms show False by (simp add: in_bounds_def)
  qed
  with assms(1) show ?thesis by (auto simp: in_bounds_def)
qed

lemma consume_in_bounds:
  assumes "in_bounds p" and "ex \<noteq> []" and "''EOF'' \<notin> set ex" and "[] \<notin> set ex"
  shows "stays_in_bounds (consume p ex)"
proof -
  let ?tok = "tokens p ! pos p"
  show ?thesis
  proof (cases "list_ex (\<lambda>typ. Type ?tok = typ \<or> Value ?tok = typ) ex")
    case True
    then have "Type ?tok \<noteq> ''EOF'' \<or> Value ?tok \<noteq> []"
      using assms(3,4) by (auto simp: list_ex_iff)
    from not_last_in_bounds [OF assms(1) this] True assms(1,2) show ?thesis
      by (simp add: consume_def current_in_bounds ebind_def stays_in_bounds_def)
  next
    case False
    with assms(1,2) show ?thesis
      by (simp add: consume_def current_in_bounds ebind_def stays_in_bounds_def)
  qed
qed

lemma parseExpression_in_bounds:
  assumes "in_bounds p"
  shows "stays_in_bounds (parseExpression p)"
proof -
  let ?tok = "tokens p ! pos p"
  show ?thesis
  proof (cases "Type ?tok = ''NUMBER'' \<or> Type ?tok = ''STRING'' \<or> Type ?tok = ''ID''")
    case True
    then have "Type ?tok \<noteq> ''EOF'' \<or> Value ?tok \<noteq> []" by auto
    from not_last_in_bounds [OF assms this] True assms show ?thesis
      by (simp add: parseExpression_def consume_def current_in_bounds ebind_def stays_in_bounds_def)
  next
    case False
    with assms show ?thesis
      by (simp add: parseExpression_def consume_def current_in_bounds ebind_def stays_in_bounds_def)
  qed
qed

lemma stays_in_bounds_current:
  "in_bounds p \<Longrightarrow> (\<And>c. current p = Inr c \<Longrightarrow> stays_in_bounds (f c)) \<Longrightarrow>
     stays_in_bounds (ebind (current p) f)"
  by (simp add: current_in_bounds ebind_def)

lemma two_ids_in_bounds:
  assumes "in_bounds p"
  shows "\<exists>b. two_ids p = Inr b"
proof (cases "Type (tokens p ! pos p) = ''ID''")
  case True
  then have "Type (tokens p ! pos p) \<noteq> ''EOF'' \<or> Value (tokens p ! pos p) \<noteq> []" by auto
  from not_last_in_bounds [OF assms this] have "pos p + 1 < length (tokens p)"
    by (simp add: in_bounds_def)
  with True assms show ?thesis
    by (simp add: two_ids_def current_in_bounds ebind_def token_at_def)
next
  case False
  with assms show ?thesis by (auto simp: two_ids_def current_in_bounds ebind_def)
qed

lemmas in_bounds_intros =
  stays_in_bounds_ebind stays_in_bounds_Inr stays_in_bounds_current
  consume_in_bounds parseExpression_in_bounds

lemma parseStatement_in_bounds:
  assumes "in_bounds p"
  shows "stays_in_bounds (parseStatement p)"
proof -
  from two_ids_in_bounds [OF assms] obtain b where b: "two_ids p = Inr b" ..
  show ?thesis
    unfolding parseStatement_def b ebind_def [of "Inr b"] sum.case
    using assms by (auto intro!: in_bounds_intros)
qed

lemma parseParams_loop_in_bounds:
  "in_bounds p \<Longrightarrow> stays_in_bounds (parseParams_loop p params)"
proof (induction p params rule: parseParams_loop.induct)
  case (1 p params)
  show ?case
    apply (subst parseParams_loop.simps)
    using "1.prems" "1.IH"
    by (auto intro!: in_bounds_intros)
qed

lemma parseParams_in_bounds: "in_bounds p \<Longrightarrow> stays_in_bounds (parseParams p)"
  unfolding parseParams_def
  by (auto intro!: in_bounds_intros parseParams_loop_in_bounds)

lemma parseBlock_loop_in_bounds:
  "in_bounds p \<Longrightarrow> stays_in_bounds (parseBlock_loop p stmts)"
proof (induction p stmts rule: parseBlock_loop.induct)
  case (1 p stmts)
  show ?case
    apply (subst parseBlock_loop.simps)
    using "1.prems" "1.IH"
    by (auto intro!: in_bounds_intros parseStatement_in_bounds)
qed

lemma parseBlock_in_bounds: "in_bounds p \<Longrightarrow> stays_in_bounds (parseBlock p)"
  unfolding parseBlock_def
  by (auto intro!: in_bounds_intros parseBlock_loop_in_bounds)

lemma parseFunction_in_bounds: "in_bounds p \<Longrightarrow> stays_in_bounds (parseFunction p)"
  unfolding parseFunction_def
  by (auto intro!: in_bounds_intros parseParams_in_bounds parseBlock_in_bounds)

lemma parseClass_in_bounds: "in_bounds p \<Longrightarrow> stays_in_bounds (parseClass p)"
  unfolding parseClass_def
  by (auto intro!: in_bounds_intros parseBlock_in_bounds)

lemma parse_loop_in_bounds:
  "in_bounds p \<Longrightarrow> stays_in_bounds (parse_loop p decls)"
proof (induction p decls rule: parse_loop.induct)
  case (1 p decls)
  show ?case
    apply (subst parse_loop.simps)
    using "1.prems" "1.IH"
    by (auto intro!: in_bounds_intros parseClass_in_bounds parseFunction_in_bounds)
qed

lemma parse_in_bounds:
  assumes "in_bounds p" and "parse p = Inl e"
  shows "explicit_fault e"
  using parse_loop_in_bounds [OF assms(1), of "[]"] assms(2)
  by (auto simp: parse_def ebind_def stays_in_bounds_def split: sum.splits)

lemma tokenize_in_bounds: "tokenize src = Inr toks \<Longrightarrow> in_bounds (NewParser toks)"
  by (auto simp: tokenize_def in_bounds_def NewParser_def split: sum.splits)

subsection \<open>The generated text\<close>

lemma appends_refl: "appends cg cg"
  by (simp add: appends_def)

lemma appends_trans: "appends a b \<Longrightarrow> appends b c \<Longrightarrow> appends a c"
  by (auto simp: appends_def)

lemma appends_WriteString: "appends cg (WriteString cg s)"
  by (simp add: appends_def WriteString_def)

lemma appends_indent: "appends cg (cg'\<lparr>indent := i\<rparr>) = appends cg cg'"
  by (simp add: appends_def)

lemma appends_foldl:
  assumes "\<And>c n. appends c (f c n)"
  shows "appends cg (foldl f cg ns)"
proof (induction ns arbitrary: cg)
  case Nil
  show ?case by (simp add: appends_refl)
next
  case (Cons n ns)
  from assms [of cg n] Cons [of "f cg n"] show ?case
    by (auto intro: appends_trans)
qed

lemma appends_emitStatement: "appends cg (emitStatement cg n)"
  by (cases n) (simp_all add: Let_def appends_WriteString)

lemma appends_emitFunction: "appends cg (emitFunction cg fn)"
proof -
  let ?cg1 = "WriteString cg (RetType fn @ '' '' @ Name fn @ ''(''
                @ Join (map param_text (Params fn)) '', '' @ '') {\<newline>'')"
  let ?cg3 = "foldl emitStatement (?cg1\<lparr>indent := ''    ''\<rparr>) (Body fn)"
  have "appends cg (?cg1\<lparr>indent := ''    ''\<rparr>)"
    by (simp add: appends_indent appends_WriteString)
  moreover have "appends (?cg1\<lparr>indent := ''    ''\<rparr>) ?cg3"
    by (rule appends_foldl) (rule appends_emitStatement)
  moreover have "appends ?cg3 (WriteString ?cg3 ''}\<newline>\<newline>'')"
    by (rule appends_WriteString)
  ultimately show ?thesis
    unfolding emitFunction_def Let_def by (blast intro: appends_trans)
qed

lemma appends_emitField: "appends cg (emitField cg n)"
  by (cases n) (simp_all add: appends_WriteString appends_refl)

lemma appends_emitMethod: "appends cg (emitMethod cls cg n)"
proof (cases n)
  case (FunctionDeclNode fn)
  let ?cg1 = "WriteString cg (RetType fn @ '' '' @ ClassName cls @ ''_'' @ Name fn @ ''(''
                @ Join ((ClassName cls @ ''* this'') # map param_text (Params fn)) '', ''
                @ '') {\<newline>'')"
  let ?cg3 = "foldl emitStatement (?cg1\<lparr>indent := ''    ''\<rparr>) (Body fn)"
  have "appends cg (?cg1\<lparr>indent := ''    ''\<rparr>)"
    by (simp add: appends_indent appends_WriteString)
  moreover have "appends (?cg1\<lparr>indent := ''    ''\<rparr>) ?cg3"
    by (rule appends_foldl) (rule appends_emitStatement)
  moreover have "appends ?cg3 (WriteString ?cg3 ''}\<newline>\<newline>'')"
    by (rule appends_WriteString)
  ultimately have "appends cg (WriteString ?cg3 ''}\<newline>\<newline>'')"
    by (blast intro: appends_trans)
  with FunctionDeclNode show ?thesis by (simp add: Let_def)
qed (simp_all add: appends_refl)

lemma appends_emitClass: "appends cg (emitClass cg cls)"
proof -
  let ?cg1 = "WriteString cg (''typedef struct '' @ ClassName cls @ '' {\<newline>'')"
  let ?cg2 = "foldl emitField ?cg1 (Members cls)"
  let ?cg3 = "WriteString ?cg2 (''} '' @ ClassName cls @ '';\<newline>\<newline>'')"
  have "appends cg ?cg1" by (rule appends_WriteString)
  moreover have "appends ?cg1 ?cg2" by (rule appends_foldl) (rule appends_emitField)
  moreover have "appends ?cg2 ?cg3" by (rule appends_WriteString)
  moreover have "appends ?cg3 (foldl (emitMethod cls) ?cg3 (Members cls))"
    by (rule appends_foldl) (rule appends_emitMethod)
  ultimately show ?thesis
    unfolding emitClass_def Let_def by (blast intro: appends_trans)
qed

lemma appends_emitDeclaration: "appends cg (emitDeclaration cg n)"
  by (cases n) (simp_all add: appends_emitFunction appends_emitClass appends_refl)

lemma generate_prelude:
  "\<exists>rest. generate cg =
     code cg @ ''#include <stdio.h>\<newline>#include <stdlib.h>\<newline>#include <string.h>\<newline>\<newline>'' @ rest"
proof -
  have "appends (emitIncludes cg) (foldl emitDeclaration (emitIncludes cg) (Declarations (ast cg)))"
    by (rule appends_foldl) (rule appends_emitDeclaration)
  then show ?thesis
    by (auto simp: appends_def generate_def emitIncludes_def WriteString_def)
qed

lemma emitDeclaration_skip:
  "\<not> is_FunctionDecl n \<Longrightarrow> \<not> is_ClassDecl n \<Longrightarrow> emitDeclaration cg n = cg"
  by (cases n) simp_all

subsection \<open>Steps of the generator that do not read the generated text\<close>

lemma frameD:
  "frame g \<Longrightarrow> g (cg\<lparr>ast := a, code := s @ code cg\<rparr>) = (g cg)\<lparr>ast := a, code := s @ code (g cg)\<rparr>"
  by (simp add: frame_def)

lemma frame_id: "frame (\<lambda>cg. cg)"
  by (simp add: frame_def)

lemma frame_comp: "frame f \<Longrightarrow> frame g \<Longrightarrow> frame (\<lambda>cg. g (f cg))"
  by (simp add: frame_def)

lemma frame_WriteString: "frame (\<lambda>cg. WriteString cg t)"
  by (simp add: frame_def WriteString_def)

lemma frame_indent: "frame (\<lambda>cg. cg\<lparr>indent := i\<rparr>)"
  by (simp add: frame_def)

lemma frame_foldl:
  assumes "\<And>n. frame (\<lambda>cg. f cg n)"
  shows "frame (\<lambda>cg. foldl f cg ns)"
proof (induction ns rule: rev_induct)
  case Nil
  show ?case by (simp add: frame_id)
next
  case (snoc n ns)
  from frame_comp [OF snoc assms [of n]] show ?case by simp
qed

lemma frame_emitStatement: "frame (\<lambda>cg. emitStatement cg n)"
  by (cases n) (simp_all add: frame_def WriteString_def Let_def)

lemma frame_body:
  "frame (\<lambda>cg. WriteString (foldl emitStatement cg b) ''}\<newline>\<newline>'')"
  by (rule frame_comp [OF frame_foldl frame_WriteString]) (rule frame_emitStatement)

lemma frame_emitFunction: "frame (\<lambda>cg. emitFunction cg fn)"
  unfolding emitFunction_def Let_def
  by (intro frame_comp [OF frame_WriteString] frame_comp [OF frame_indent] frame_body)

lemma frame_emitField: "frame (\<lambda>cg. emitField cg n)"
  by (cases n) (simp_all add: frame_def WriteString_def)

lemma frame_emitMethod: "frame (\<lambda>cg. emitMethod cls cg n)"
proof (cases n)
  case (FunctionDeclNode fn)
  have "frame (\<lambda>cg. WriteString (foldl emitStatement
          ((WriteString cg (RetType fn @ '' '' @ ClassName cls @ ''_'' @ Name fn @ ''(''
             @ Join ((ClassName cls @ ''* this'') # map param_text (Params fn)) '', ''
             @ '') {\<newline>''))\<lparr>indent := ''    ''\<rparr>) (Body fn)) ''}\<newline>\<newline>'')"
    by (intro frame_comp [OF frame_WriteString] frame_comp [OF frame_indent] frame_body)
  with FunctionDeclNode show ?thesis by (simp add: Let_def)
qed (simp_all add: frame_id)

lemma frame_emitClass: "frame (\<lambda>cg. emitClass cg cls)"
  unfolding emitClass_def Let_def
  by (intro frame_comp [OF frame_WriteString] frame_comp [OF frame_foldl] frame_foldl
        frame_emitField frame_emitMethod frame_WriteString)

lemma frame_emitDeclaration: "frame (\<lambda>cg. emitDeclaration cg n)"
  by (cases n) (simp_all add: frame_emitFunction frame_emitClass frame_id)

lemma frame_insert:
  assumes "frame g"
  shows "\<exists>post. code (g (WriteString cg l)) = code cg @ l @ post \<and> code (g cg) = code cg @ post"
proof -
  let ?cg0 = "cg\<lparr>code := []\<rparr>"
  have "g (?cg0\<lparr>ast := ast cg, code := code cg @ code ?cg0\<rparr>)
      = (g ?cg0)\<lparr>ast := ast cg, code := code cg @ code (g ?cg0)\<rparr>"
    by (rule frameD [OF assms])
  moreover have "g (?cg0\<lparr>ast := ast cg, code := (code cg @ l) @ code ?cg0\<rparr>)
      = (g ?cg0)\<lparr>ast := ast cg, code := (code cg @ l) @ code (g ?cg0)\<rparr>"
    by (rule frameD [OF assms])
  ultimately have "code (g (WriteString cg l)) = code cg @ l @ code (g ?cg0)
      \<and> code (g cg) = code cg @ code (g ?cg0)"
    by (simp add: WriteString_def)
  then show ?thesis by blast
qed

lemma indent_emitStatement: "indent (emitStatement cg n) = indent cg"
  by (cases n) (simp_all add: WriteString_def Let_def)

lemma indent_foldl_emitStatement: "indent (foldl emitStatement cg ns) = indent cg"
  by (induction ns arbitrary: cg) (simp_all add: indent_emitStatement)

lemma emitStatement_unknown:
  "\<not> is_VarDecl n \<Longrightarrow> \<not> is_Statement n \<Longrightarrow>
   emitStatement cg n = WriteString cg (indent cg @ ''// Unknown statement\<newline>'')"
  by (cases n) simp_all

lemma body_insert:
  assumes n: "\<not> is_VarDecl n" "\<not> is_Statement n"
    and g: "frame g"
    and i: "indent cg = ''    ''"
  shows "\<exists>pre post.
      code (g (foldl emitStatement cg (b @ n # b'))) = pre @ ''    // Unknown statement\<newline>'' @ post
    \<and> code (g (foldl emitStatement cg (b @ b'))) = pre @ post"
proof -
  let ?cgb = "foldl emitStatement cg b"
  have f: "frame (\<lambda>c. g (foldl emitStatement c b'))"
    by (rule frame_comp [OF frame_foldl g]) (rule frame_emitStatement)
  have "emitStatement ?cgb n = WriteString ?cgb (''    // Unknown statement\<newline>'')"
    using emitStatement_unknown [OF n, of ?cgb] i by (simp add: indent_foldl_emitStatement)
  then have "foldl emitStatement cg (b @ n # b')
      = foldl emitStatement (WriteString ?cgb (''    // Unknown statement\<newline>'')) b'"
    by simp
  moreover have "foldl emitStatement cg (b @ b') = foldl emitStatement ?cgb b'"
    by simp
  ultimately show ?thesis
    using frame_insert [OF f, of ?cgb "''    // Unknown statement\<newline>''"] by metis
qed

lemma frame_generate: "frame (\<lambda>cg. foldl emitDeclaration (emitIncludes cg) ds)"
  unfolding emitIncludes_def
  by (intro frame_comp [OF frame_WriteString] frame_foldl frame_emitDeclaration)

lemma generate_run:
  "generate (NewCodeGenerator (Program ds))
     = code (foldl emitDeclaration (emitIncludes (NewCodeGenerator (Program []))) ds)"
  using frameD [OF frame_generate [of ds], where a = "Program ds" and s = "[]"
                 and cg = "NewCodeGenerator (Program [])"]
  by (simp add: generate_def NewCodeGenerator_def)

lemma emitMethod_ClassName: "emitMethod cls = emitMethod (ClassDecl (ClassName cls) [] [])"
proof (intro ext)
  fix cg n
  show "emitMethod cls cg n = emitMethod (ClassDecl (ClassName cls) [] []) cg n"
    by (cases n) simp_all
qed

lemma emitField_skip: "\<not> is_VarDecl n \<Longrightarrow> emitField cg n = cg"
  by (cases n) simp_all

lemma emitMethod_no_function: "\<not> is_FunctionDecl n \<Longrightarrow> emitMethod cls cg n = cg"
  by (cases n) simp_all

lemma function_insert:
  assumes n: "\<not> is_VarDecl n" "\<not> is_Statement n"
  shows "\<exists>pre post.
      generate (NewCodeGenerator (Program
        (ds @ FunctionDeclNode (FunctionDecl rt nm ps (b @ n # b')) # ds')))
        = pre @ ''    // Unknown statement\<newline>'' @ post
    \<and> generate (NewCodeGenerator (Program
        (ds @ FunctionDeclNode (FunctionDecl rt nm ps (b @ b')) # ds')))
        = pre @ post"
proof -
  let ?cgd = "foldl emitDeclaration (emitIncludes (NewCodeGenerator (Program []))) ds"
  let ?cg2 = "(WriteString ?cgd (rt @ '' '' @ nm @ ''('' @ Join (map param_text ps) '', ''
                @ '') {\<newline>''))\<lparr>indent := ''    ''\<rparr>"
  let ?g = "\<lambda>c. foldl emitDeclaration (WriteString c ''}\<newline>\<newline>'') ds'"
  have g: "frame ?g"
    by (intro frame_comp [OF frame_WriteString] frame_foldl frame_emitDeclaration)
  have run: "generate (NewCodeGenerator (Program
        (ds @ FunctionDeclNode (FunctionDecl rt nm ps body) # ds')))
      = code (?g (foldl emitStatement ?cg2 body))" for body
    by (simp add: generate_run emitFunction_def Let_def)
  from body_insert [OF n g, of ?cg2 b b'] show ?thesis
    by (simp add: run)
qed

lemma foldl_emitField_method:
  "foldl emitField cg (ms @ FunctionDeclNode fn # ms') = foldl emitField cg (ms @ ms')"
  by simp

lemma method_insert:
  assumes n: "\<not> is_VarDecl n" "\<not> is_Statement n"
  shows "\<exists>pre post.
      generate (NewCodeGenerator (Program
        (ds @ ClassDeclNode (ClassDecl c par
           (ms @ FunctionDeclNode (FunctionDecl rt nm ps (b @ n # b')) # ms')) # ds')))
        = pre @ ''    // Unknown statement\<newline>'' @ post
    \<and> generate (NewCodeGenerator (Program
        (ds @ ClassDeclNode (ClassDecl c par
           (ms @ FunctionDeclNode (FunctionDecl rt nm ps (b @ b')) # ms')) # ds')))
        = pre @ post"
proof -
  let ?cls = "ClassDecl c [] []"
  let ?cgd = "foldl emitDeclaration (emitIncludes (NewCodeGenerator (Program []))) ds"
  let ?cg3 = "WriteString (foldl emitField
                (WriteString ?cgd (''typedef struct '' @ c @ '' {\<newline>'')) (ms @ ms'))
                (''} '' @ c @ '';\<newline>\<newline>'')"
  let ?cg2 = "(WriteString (foldl (emitMethod ?cls) ?cg3 ms)
                (rt @ '' '' @ c @ ''_'' @ nm @ ''(''
                 @ Join ((c @ ''* this'') # map param_text ps) '', ''
                 @ '') {\<newline>''))\<lparr>indent := ''    ''\<rparr>"
  let ?g = "\<lambda>cg. foldl emitDeclaration
              (foldl (emitMethod ?cls) (WriteString cg ''}\<newline>\<newline>'') ms') ds'"
  have g: "frame ?g"
    by (intro frame_comp [OF frame_WriteString] frame_comp [OF frame_foldl] frame_foldl
          frame_emitDeclaration frame_emitMethod)
  have run: "generate (NewCodeGenerator (Program
        (ds @ ClassDeclNode (ClassDecl c par
           (ms @ FunctionDeclNode (FunctionDecl rt nm ps body) # ms')) # ds')))
      = code (?g (foldl emitStatement ?cg2 body))" for body
    using emitMethod_ClassName
            [of "ClassDecl c par (ms @ FunctionDeclNode (FunctionDecl rt nm ps body) # ms')"]
    by (simp add: generate_run emitClass_def Let_def)
  from body_insert [OF n g, of ?cg2 b b'] show ?thesis
    by (simp add: run)
qed

lemma declaration_skip:
  assumes "\<not> is_FunctionDecl n" "\<not> is_ClassDecl n"
  shows "generate (NewCodeGenerator (Program (ds @ n # ds')))
       = generate (NewCodeGenerator (Program (ds @ ds')))"
  using assms by (simp add: generate_run emitDeclaration_skip)

lemma member_skip:
  assumes "\<not> is_VarDecl n" "\<not> is_FunctionDecl n"
  shows "generate (NewCodeGenerator (Program
           (ds @ ClassDeclNode (ClassDecl c par (ms @ n # ms')) # ds')))
       = generate (NewCodeGenerator (Program
           (ds @ ClassDeclNode (ClassDecl c par (ms @ ms')) # ds')))"
proof -
  have "emitClass cg (ClassDecl c par (ms @ n # ms')) = emitClass cg (ClassDecl c par (ms @ ms'))"
    for cg
    using assms emitMethod_ClassName [of "ClassDecl c par (ms @ n # ms')"]
      emitMethod_ClassName [of "ClassDecl c par (ms @ ms')"]
    by (simp add: emitClass_def Let_def emitField_skip emitMethod_no_function)
  then show ?thesis by (simp add: generate_run)
qed

lemma function_unknown:
  assumes "\<not> is_VarDecl n" "\<not> is_Statement n"
  shows "generate (NewCodeGenerator (Program [FunctionDeclNode (FunctionDecl rt nm ps [n])]))
     = ''#include <stdio.h>\<newline>#include <stdlib.h>\<newline>#include <string.h>\<newline>\<newline>''
       @ rt @ '' '' @ nm @ ''('' @ Join (map param_text ps) '', '' @ '') {\<newline>''
       @ ''    // Unknown statement\<newline>'' @ ''}\<newline>\<newline>''"
  using assms
  by (simp add: generate_def NewCodeGenerator_def emitIncludes_def emitFunction_def Let_def
        emitStatement_unknown WriteString_def)

lemma method_unknown:
  assumes "\<not> is_VarDecl n" "\<not> is_Statement n"
  shows "generate (NewCodeGenerator (Program
           [ClassDeclNode (ClassDecl c par [FunctionDeclNode (FunctionDecl rt nm ps [n])])]))
     = ''#include <stdio.h>\<newline>#include <stdlib.h>\<newline>#include <string.h>\<newline>\<newline>''
       @ ''typedef struct '' @ c @ '' {\<newline>'' @ ''} '' @ c @ '';\<newline>\<newline>''
       @ rt @ '' '' @ c @ ''_'' @ nm @ ''('' @ Join ((c @ ''* this'') # map param_text ps) '', ''
       @ '') {\<newline>'' @ ''    // Unknown statement\<newline>'' @ ''}\<newline>\<newline>''"
  using assms
  by (simp add: generate_def NewCodeGenerator_def emitIncludes_def emitClass_def Let_def
        emitStatement_unknown WriteString_def)

section \<open>Verified properties\<close>

subsection \<open>Two sample programs\<close>

text \<open>
  C1. The source \<^verbatim>\<open>class Foo : Bar { int x; int get() { x; } }\<close> is claimed to
  compile to a record type with the field \<open>x\<close> and a free function \<open>Foo_get\<close>. The
  pipeline stops in the parser instead. \<^verbatim>\<open>tokenize\<close> gives the identifier \<^verbatim>\<open>class\<close>
  the type \<^verbatim>\<open>LPAREN\<close>, so the first \<^verbatim>\<open>consume("ID")\<close> of \<^verbatim>\<open>parseClass\<close> panics. With
  the token types that \<^verbatim>\<open>tokenSpecs\<close> names the parser stops as well: inside the class
  body \<^verbatim>\<open>int get\<close> is read as a variable declaration, and the parenthesis that follows
  is not the semicolon that \<^verbatim>\<open>parseStatement\<close> expects.
\<close>

theorem class_with_method_is_a_parse_fault:
  "compile ''class Foo : Bar { int x; int get() { x; } }'' =
     Inl (ExpectedError [''ID'']
            \<lparr>Type = ''LPAREN'', Value = ''class'', Line = 1, Column = 0\<rparr>)
   \<and> parse (NewParser Foo_tokens) =
       Inl (ExpectedError [''SEMICOLON'']
              \<lparr>Type = ''LPAREN'', Value = ''('', Line = 1, Column = 32\<rparr>)"
  by code_simp

text \<open>
  C2. For the token sequence of \<^verbatim>\<open>int add(int a, int b) { return a; }\<close> the parser is
  claimed to return one function \<open>add\<close> with the parameters \<open>(int, a)\<close> and \<open>(int, b)\<close>
  whose single body statement is an expression statement. The body statement is not an
  expression statement, whichever identifier is taken as its literal.
\<close>

theorem add_body_is_no_expression_statement:
  "parse (NewParser add_tokens) \<noteq>
     Inr (Program
       [FunctionDeclNode
         (FunctionDecl ''int'' ''add''
           [\<lparr>ParamType = ''int'', ParamName = ''a''\<rparr>, \<lparr>ParamType = ''int'', ParamName = ''b''\<rparr>]
           [StatementNode \<lparr>Expr = \<lparr>ExprValue = ''return''\<rparr>\<rparr>])])
   \<and>
   parse (NewParser add_tokens) \<noteq>
     Inr (Program
       [FunctionDeclNode
         (FunctionDecl ''int'' ''add''
           [\<lparr>ParamType = ''int'', ParamName = ''a''\<rparr>, \<lparr>ParamType = ''int'', ParamName = ''b''\<rparr>]
           [StatementNode \<lparr>Expr = \<lparr>ExprValue = ''a''\<rparr>\<rparr>])])"
  by code_simp

text \<open>
  C2, as the code has it: the two identifiers \<^verbatim>\<open>return a\<close> in a row are a variable
  declaration of type \<open>return\<close> and name \<open>a\<close> without a default value; the rest of the
  function is as claimed.
\<close>

theorem add_parses_with_return_as_declaration:
  "parse (NewParser add_tokens) =
     Inr (Program
       [FunctionDeclNode
         (FunctionDecl ''int'' ''add''
           [\<lparr>ParamType = ''int'', ParamName = ''a''\<rparr>, \<lparr>ParamType = ''int'', ParamName = ''b''\<rparr>]
           [VarDeclNode \<lparr>VarType = ''return'', VarName = ''a'', Default = \<lparr>ExprValue = []\<rparr>\<rparr>])])"
  by code_simp

subsection \<open>Lexing the generated text again\<close>

text \<open>
  C3. Lexing the output of the code generator is claimed never to give a \<open>LexError\<close>.
  Already for the empty program it does.
\<close>

theorem relexing_empty_program_fails:
  "tokenize (generate (NewCodeGenerator (Program []))) = Inl (LexError [CHR 0x0A] 1 18)"
  by code_simp

text \<open>
  C3, as the code has it: for every program, lexing the generated text gives a
  \<open>LexError\<close>. The text starts with the include prelude, and the first match in it is
  the character \<^verbatim>\<open>#\<close>, matched by the catch-all alternative alone: the group that is
  set is the last one of the pattern.
\<close>

theorem relexing_generated_text_fails:
  "(\<exists>val line col. tokenize (generate (NewCodeGenerator p)) = Inl (LexError val line col))
   \<and> (\<exists>m ms. FindAllStringSubmatchIndex (generate (NewCodeGenerator p)) = m # ms
          \<and> slice (generate (NewCodeGenerator p)) (fullStart m) (fullEnd m) = ''#''
          \<and> submatch m (NumSubexp pattern) \<noteq> None)"
proof -
  from generate_prelude [of "NewCodeGenerator p"] obtain rest where
    g: "generate (NewCodeGenerator p) = ''#include <stdio.h>'' @ CHR 0x0A # rest"
    by (auto simp: NewCodeGenerator_def)
  note n = pattern_NumSubexp
  from scan_hash [of "''include <stdio.h>'' @ CHR 0x0A # rest"] obtain m ms where
    "scan (generate (NewCodeGenerator p)) 0 = m # ms" "fullStart m = 0" "fullEnd m = 1"
    "submatch m 18 = Some (0, 1)"
    unfolding g by auto
  then have "FindAllStringSubmatchIndex (generate (NewCodeGenerator p)) = m # ms
      \<and> slice (generate (NewCodeGenerator p)) (fullStart m) (fullEnd m) = ''#''
      \<and> submatch m (NumSubexp pattern) \<noteq> None"
    using g n by (simp add: FindAllStringSubmatchIndex_def slice_def)
  moreover have "tokenize (generate (NewCodeGenerator p)) = Inl (LexError [CHR 0x0A] 1 18)"
    unfolding g by (rule tokenize_prelude)
  ultimately show ?thesis by blast
qed

subsection \<open>The lexer\<close>

text \<open>
  C4. Token round trip: the texts of the tokens, with the discarded whitespace runs and
  newlines put back, are claimed to give the input again. In \<^verbatim>\<open>x = 1;\<close> the blanks are
  not discarded but returned as tokens of empty type, and the semicolon, which is neither
  whitespace nor a newline, is dropped: the texts of the tokens concatenate to
  \<^verbatim>\<open>x = 1\<close>.
\<close>

theorem semicolon_is_lost_in_round_trip:
  "tokenize ''x = 1;'' =
     Inr [\<lparr>Type = ''LPAREN'', Value = ''x'', Line = 1, Column = 0\<rparr>,
          \<lparr>Type = [], Value = '' '', Line = 1, Column = 1\<rparr>,
          \<lparr>Type = ''RPAREN'', Value = ''='', Line = 1, Column = 2\<rparr>,
          \<lparr>Type = [], Value = '' '', Line = 1, Column = 3\<rparr>,
          \<lparr>Type = ''NUMBER'', Value = ''1'', Line = 1, Column = 4\<rparr>,
          \<lparr>Type = ''EOF'', Value = [], Line = 2, Column = 0\<rparr>]"
  by code_simp

text \<open>
  C5. \<^verbatim>\<open>tokenize\<close> is claimed to fail exactly when the input holds a character that
  only the catch-all category matches. On \<^verbatim>\<open>a @\<close> it does not fail: the character
  \<^verbatim>\<open>@\<close> becomes a token of empty type. On a text of two lines it fails at the newline,
  a character that has a category of its own.
\<close>

theorem unknown_character_is_accepted_and_newline_rejected:
  "tokenize ''a @'' =
     Inr [\<lparr>Type = ''LPAREN'', Value = ''a'', Line = 1, Column = 0\<rparr>,
          \<lparr>Type = [], Value = '' '', Line = 1, Column = 1\<rparr>,
          \<lparr>Type = [], Value = ''@'', Line = 1, Column = 2\<rparr>,
          \<lparr>Type = ''EOF'', Value = [], Line = 1, Column = 0\<rparr>]
   \<and> tokenize ''a\<newline>bb'' = Inl (LexError [CHR 0x0A] 1 1)"
  by code_simp

text \<open>
  C6. On success the line of the final \<^verbatim>\<open>EOF\<close> token is claimed to be one more than
  the number of newlines of the input. The input \<^verbatim>\<open>x;y\<close> holds no newline, yet the
  semicolon advances the line counter and resets the column origin: \<open>y\<close> and the
  \<^verbatim>\<open>EOF\<close> token are on line 2.
\<close>

theorem semicolon_advances_the_line:
  "tokenize ''x;y'' =
     Inr [\<lparr>Type = ''LPAREN'', Value = ''x'', Line = 1, Column = 0\<rparr>,
          \<lparr>Type = ''LPAREN'', Value = ''y'', Line = 2, Column = 0\<rparr>,
          \<lparr>Type = ''EOF'', Value = [], Line = 2, Column = 0\<rparr>]
   \<and> newlines ''x;y'' = 0"
  by code_simp

subsection \<open>The code generator\<close>

text \<open>
  C7. Every node outside the known shapes is claimed to leave a placeholder comment in
  the output. At the top level it leaves nothing: the output for a program whose only
  declaration is such a node is the bare prelude.
\<close>

theorem unknown_declaration_leaves_no_placeholder:
  "generate (NewCodeGenerator (Program [OtherNode ''x''])) =
     ''#include <stdio.h>\<newline>#include <stdlib.h>\<newline>#include <string.h>\<newline>\<newline>''"
  by (simp add: generate_def NewCodeGenerator_def emitIncludes_def WriteString_def)

text \<open>
  C7, as the code has it. \<open>generate\<close> is a function from programs to text with no fault
  among its results, and its text starts with the prelude. A node that is neither a
  \<^verbatim>\<open>VarDecl\<close> nor a \<^verbatim>\<open>Statement\<close> in the body of a function, or of a method of a class,
  yields the placeholder line: as the only node of the body it stands between the
  signature and the closing brace, and at any place of any body, in any program, the
  output is the output of the program without the node with the placeholder line
  inserted. A top-level node that is neither a \<^verbatim>\<open>FunctionDecl\<close> nor a \<^verbatim>\<open>ClassDecl\<close>, and
  a class member that is neither a \<^verbatim>\<open>VarDecl\<close> nor a \<^verbatim>\<open>FunctionDecl\<close>, yields no text:
  the output is that of the program without the node.
\<close>

theorem generate_unknown_nodes:
  "(\<exists>rest. generate (NewCodeGenerator p) =
      ''#include <stdio.h>\<newline>#include <stdlib.h>\<newline>#include <string.h>\<newline>\<newline>'' @ rest)
   \<and> (\<not> is_VarDecl n \<and> \<not> is_Statement n \<longrightarrow>
        generate (NewCodeGenerator (Program [FunctionDeclNode (FunctionDecl rt nm ps [n])]))
          = ''#include <stdio.h>\<newline>#include <stdlib.h>\<newline>#include <string.h>\<newline>\<newline>''
            @ rt @ '' '' @ nm @ ''('' @ Join (map param_text ps) '', '' @ '') {\<newline>''
            @ ''    // Unknown statement\<newline>'' @ ''}\<newline>\<newline>''
      \<and> generate (NewCodeGenerator (Program
            [ClassDeclNode (ClassDecl c par [FunctionDeclNode (FunctionDecl rt nm ps [n])])]))
          = ''#include <stdio.h>\<newline>#include <stdlib.h>\<newline>#include <string.h>\<newline>\<newline>''
            @ ''typedef struct '' @ c @ '' {\<newline>'' @ ''} '' @ c @ '';\<newline>\<newline>''
            @ rt @ '' '' @ c @ ''_'' @ nm @ ''(''
            @ Join ((c @ ''* this'') # map param_text ps) '', '' @ '') {\<newline>''
            @ ''    // Unknown statement\<newline>'' @ ''}\<newline>\<newline>''
      \<and> (\<exists>pre post.
            generate (NewCodeGenerator (Program
              (ds @ FunctionDeclNode (FunctionDecl rt nm ps (b @ n # b')) # ds')))
              = pre @ ''    // Unknown statement\<newline>'' @ post
          \<and> generate (NewCodeGenerator (Program
              (ds @ FunctionDeclNode (FunctionDecl rt nm ps (b @ b')) # ds')))
              = pre @ post)
      \<and> (\<exists>pre post.
            generate (NewCodeGenerator (Program
              (ds @ ClassDeclNode (ClassDecl c par
                 (ms @ FunctionDeclNode (FunctionDecl rt nm ps (b @ n # b')) # ms')) # ds')))
              = pre @ ''    // Unknown statement\<newline>'' @ post
          \<and> generate (NewCodeGenerator (Program
              (ds @ ClassDeclNode (ClassDecl c par
                 (ms @ FunctionDeclNode (FunctionDecl rt nm ps (b @ b')) # ms')) # ds')))
              = pre @ post))
   \<and> (\<not> is_FunctionDecl n \<and> \<not> is_ClassDecl n \<longrightarrow>
        generate (NewCodeGenerator (Program (ds @ n # ds')))
          = generate (NewCodeGenerator (Program (ds @ ds'))))
   \<and> (\<not> is_VarDecl n \<and> \<not> is_FunctionDecl n \<longrightarrow>
        generate (NewCodeGenerator (Program
          (ds @ ClassDeclNode (ClassDecl c par (ms @ n # ms')) # ds')))
          = generate (NewCodeGenerator (Program
              (ds @ ClassDeclNode (ClassDecl c par (ms @ ms')) # ds'))))"
proof (intro conjI impI)
  show "\<exists>rest. generate (NewCodeGenerator p) =
      ''#include <stdio.h>\<newline>#include <stdlib.h>\<newline>#include <string.h>\<newline>\<newline>'' @ rest"
    using generate_prelude [of "NewCodeGenerator p"] by (simp add: NewCodeGenerator_def)
next
  assume "\<not> is_VarDecl n \<and> \<not> is_Statement n"
  then show "generate (NewCodeGenerator (Program [FunctionDeclNode (FunctionDecl rt nm ps [n])]))
          = ''#include <stdio.h>\<newline>#include <stdlib.h>\<newline>#include <string.h>\<newline>\<newline>''
            @ rt @ '' '' @ nm @ ''('' @ Join (map param_text ps) '', '' @ '') {\<newline>''
            @ ''    // Unknown statement\<newline>'' @ ''}\<newline>\<newline>''"
    by (intro function_unknown) simp_all
next
  assume "\<not> is_VarDecl n \<and> \<not> is_Statement n"
  then show "generate (NewCodeGenerator (Program
            [ClassDeclNode (ClassDecl c par [FunctionDeclNode (FunctionDecl rt nm ps [n])])]))
          = ''#include <stdio.h>\<newline>#include <stdlib.h>\<newline>#include <string.h>\<newline>\<newline>''
            @ ''typedef struct '' @ c @ '' {\<newline>'' @ ''} '' @ c @ '';\<newline>\<newline>''
            @ rt @ '' '' @ c @ ''_'' @ nm @ ''(''
            @ Join ((c @ ''* this'') # map param_text ps) '', '' @ '') {\<newline>''
            @ ''    // Unknown statement\<newline>'' @ ''}\<newline>\<newline>''"
    by (intro method_unknown) simp_all
next
  assume "\<not> is_VarDecl n \<and> \<not> is_Statement n"
  then show "\<exists>pre post.
            generate (NewCodeGenerator (Program
              (ds @ FunctionDeclNode (FunctionDecl rt nm ps (b @ n # b')) # ds')))
              = pre @ ''    // Unknown statement\<newline>'' @ post
          \<and> generate (NewCodeGenerator (Program
              (ds @ FunctionDeclNode (FunctionDecl rt nm ps (b @ b')) # ds')))
              = pre @ post"
    by (intro function_insert) simp_all
next
  assume "\<not> is_VarDecl n \<and> \<not> is_Statement n"
  then show "\<exists>pre post.
            generate (NewCodeGenerator (Program
              (ds @ ClassDeclNode (ClassDecl c par
                 (ms @ FunctionDeclNode (FunctionDecl rt nm ps (b @ n # b')) # ms')) # ds')))
              = pre @ ''    // Unknown statement\<newline>'' @ post
          \<and> generate (NewCodeGenerator (Program
              (ds @ ClassDeclNode (ClassDecl c par
                 (ms @ FunctionDeclNode (FunctionDecl rt nm ps (b @ b')) # ms')) # ds')))
              = pre @ post"
    by (intro method_insert) simp_all
next
  assume "\<not> is_FunctionDecl n \<and> \<not> is_ClassDecl n"
  then show "generate (NewCodeGenerator (Program (ds @ n # ds')))
          = generate (NewCodeGenerator (Program (ds @ ds')))"
    by (intro declaration_skip) simp_all
next
  assume "\<not> is_VarDecl n \<and> \<not> is_FunctionDecl n"
  then show "generate (NewCodeGenerator (Program
          (ds @ ClassDeclNode (ClassDecl c par (ms @ n # ms')) # ds')))
          = generate (NewCodeGenerator (Program
              (ds @ ClassDeclNode (ClassDecl c par (ms @ ms')) # ds')))"
    by (intro member_skip) simp_all
qed

theorem generate_unknown_nodes_witness:
  "\<not> is_VarDecl (OtherNode ''x'') \<and> \<not> is_Statement (OtherNode ''x'')
   \<and> \<not> is_FunctionDecl (OtherNode ''x'') \<and> \<not> is_ClassDecl (OtherNode ''x'')
   \<and> generate (NewCodeGenerator (Program
        [FunctionDeclNode (FunctionDecl ''int'' ''f'' [\<lparr>ParamType = ''int'', ParamName = ''a''\<rparr>]
           [OtherNode ''x''])]))
      = ''#include <stdio.h>\<newline>#include <stdlib.h>\<newline>#include <string.h>\<newline>\<newline>''
        @ ''int f(int a) {\<newline>''
        @ ''    // Unknown statement\<newline>''
        @ ''}\<newline>\<newline>''
   \<and> generate (NewCodeGenerator (Program
        [ClassDeclNode (ClassDecl ''Foo'' ''Bar''
           [FunctionDeclNode (FunctionDecl ''int'' ''f'' [\<lparr>ParamType = ''int'', ParamName = ''a''\<rparr>]
              [OtherNode ''x''])])]))
      = ''#include <stdio.h>\<newline>#include <stdlib.h>\<newline>#include <string.h>\<newline>\<newline>''
        @ ''typedef struct Foo {\<newline>''
        @ ''} Foo;\<newline>\<newline>''
        @ ''int Foo_f(Foo* this, int a) {\<newline>''
        @ ''    // Unknown statement\<newline>''
        @ ''}\<newline>\<newline>''
   \<and> generate (NewCodeGenerator (Program
        [OtherNode ''x'', FunctionDeclNode (FunctionDecl ''int'' ''f'' [] [])]))
      = generate (NewCodeGenerator (Program [FunctionDeclNode (FunctionDecl ''int'' ''f'' [] [])]))
   \<and> generate (NewCodeGenerator (Program
        [ClassDeclNode (ClassDecl ''Foo'' ''Bar'' [OtherNode ''x''])]))
      = generate (NewCodeGenerator (Program [ClassDeclNode (ClassDecl ''Foo'' ''Bar'' [])]))
   \<and> (\<exists>pre post.
         generate (NewCodeGenerator (Program
           [FunctionDeclNode (FunctionDecl ''int'' ''g'' []
              [StatementNode \<lparr>Expr = \<lparr>ExprValue = ''a''\<rparr>\<rparr>, OtherNode ''x'',
               StatementNode \<lparr>Expr = \<lparr>ExprValue = ''b''\<rparr>\<rparr>]),
            FunctionDeclNode (FunctionDecl ''int'' ''f'' [] [])]))
           = pre @ ''    // Unknown statement\<newline>'' @ post
       \<and> generate (NewCodeGenerator (Program
           [FunctionDeclNode (FunctionDecl ''int'' ''g'' []
              [StatementNode \<lparr>Expr = \<lparr>ExprValue = ''a''\<rparr>\<rparr>,
               StatementNode \<lparr>Expr = \<lparr>ExprValue = ''b''\<rparr>\<rparr>]),
            FunctionDeclNode (FunctionDecl ''int'' ''f'' [] [])]))
           = pre @ post)"
proof -
  have h: "\<not> is_VarDecl (OtherNode ''x'') \<and> \<not> is_Statement (OtherNode ''x'')
     \<and> \<not> is_FunctionDecl (OtherNode ''x'') \<and> \<not> is_ClassDecl (OtherNode ''x'')"
    by simp
  from generate_unknown_nodes
    [where p = "Program []" and n = "OtherNode ''x''" and rt = "''int''" and nm = "''f''"
       and ps = "[\<lparr>ParamType = ''int'', ParamName = ''a''\<rparr>]" and c = "''Foo''" and par = "''Bar''"
       and ds = "[]" and ds' = "[]" and b = "[]" and b' = "[]" and ms = "[]" and ms' = "[]"]
    generate_unknown_nodes
    [where p = "Program []" and n = "OtherNode ''x''" and rt = "''int''" and nm = "''g''"
       and ps = "[]" and c = "''Foo''" and par = "''Bar''"
       and ds = "[]" and ds' = "[FunctionDeclNode (FunctionDecl ''int'' ''f'' [] [])]"
       and b = "[StatementNode \<lparr>Expr = \<lparr>ExprValue = ''a''\<rparr>\<rparr>]"
       and b' = "[StatementNode \<lparr>Expr = \<lparr>ExprValue = ''b''\<rparr>\<rparr>]" and ms = "[]" and ms' = "[]"]
    h
  show ?thesis by (simp add: param_text_def)
qed

subsection \<open>The parser\<close>

text \<open>
  C8. In a program returned by \<open>parse\<close>, for any token sequence, every member of every
  class declaration is a \<^verbatim>\<open>VarDecl\<close> or a \<^verbatim>\<open>Statement\<close> and none is a
  \<^verbatim>\<open>FunctionDecl\<close>; the method loop of \<^verbatim>\<open>emitClass\<close> therefore emits nothing for it.
\<close>

theorem parser_builds_no_method:
  assumes "parse (NewParser toks) = Inr prog"
    and "ClassDeclNode cls \<in> set (Declarations prog)"
  shows "(\<forall>m \<in> set (Members cls). \<not> is_FunctionDecl m \<and> (is_VarDecl m \<or> is_Statement m))
         \<and> foldl (emitMethod cls) cg (Members cls) = cg"
proof -
  from assms(1) obtain ds p' where l: "parse_loop (NewParser toks) [] = Inr (ds, p')"
    and prog: "prog = Program ds"
    by (auto simp: parse_def ebind_Inr)
  from parse_loop_kind [OF l] assms(2) prog
  have k: "\<forall>n \<in> set (Members cls). is_VarDecl n \<or> is_Statement n" by simp
  have "\<not> is_FunctionDecl m" if "is_VarDecl m \<or> is_Statement m" for m
    using that by (cases m) simp_all
  with k foldl_emitMethod_skip [OF k] show ?thesis by blast
qed

theorem parser_builds_no_method_witness:
  "parse (NewParser
     [\<lparr>Type = ''ID'', Value = ''class'', Line = 1, Column = 0\<rparr>,
      \<lparr>Type = ''ID'', Value = ''Foo'', Line = 1, Column = 6\<rparr>,
      \<lparr>Type = ''LBRACE'', Value = ''{'', Line = 1, Column = 10\<rparr>,
      \<lparr>Type = ''ID'', Value = ''int'', Line = 1, Column = 12\<rparr>,
      \<lparr>Type = ''ID'', Value = ''x'', Line = 1, Column = 16\<rparr>,
      \<lparr>Type = ''SEMICOLON'', Value = '';'', Line = 1, Column = 17\<rparr>,
      \<lparr>Type = ''RBRACE'', Value = ''}'', Line = 1, Column = 19\<rparr>,
      \<lparr>Type = ''EOF'', Value = [], Line = 1, Column = 0\<rparr>])
   = Inr (Program [ClassDeclNode (ClassDecl ''Foo'' []
        [VarDeclNode \<lparr>VarType = ''int'', VarName = ''x'', Default = \<lparr>ExprValue = []\<rparr>\<rparr>])])
   \<and> \<not> is_FunctionDecl (VarDeclNode \<lparr>VarType = ''int'', VarName = ''x'', Default = \<lparr>ExprValue = []\<rparr>\<rparr>)
   \<and> foldl (emitMethod (ClassDecl ''Foo'' []
        [VarDeclNode \<lparr>VarType = ''int'', VarName = ''x'', Default = \<lparr>ExprValue = []\<rparr>\<rparr>]))
        (NewCodeGenerator (Program []))
        [VarDeclNode \<lparr>VarType = ''int'', VarName = ''x'', Default = \<lparr>ExprValue = []\<rparr>\<rparr>]
      = NewCodeGenerator (Program [])"
proof -
  let ?toks = "[\<lparr>Type = ''ID'', Value = ''class'', Line = 1, Column = 0\<rparr>,
      \<lparr>Type = ''ID'', Value = ''Foo'', Line = 1, Column = 6\<rparr>,
      \<lparr>Type = ''LBRACE'', Value = ''{'', Line = 1, Column = 10\<rparr>,
      \<lparr>Type = ''ID'', Value = ''int'', Line = 1, Column = 12\<rparr>,
      \<lparr>Type = ''ID'', Value = ''x'', Line = 1, Column = 16\<rparr>,
      \<lparr>Type = ''SEMICOLON'', Value = '';'', Line = 1, Column = 17\<rparr>,
      \<lparr>Type = ''RBRACE'', Value = ''}'', Line = 1, Column = 19\<rparr>,
      \<lparr>Type = ''EOF'', Value = [], Line = 1, Column = 0\<rparr>]"
  let ?cls = "ClassDecl ''Foo'' []
        [VarDeclNode \<lparr>VarType = ''int'', VarName = ''x'', Default = \<lparr>ExprValue = []\<rparr>\<rparr>]"
  have p: "parse (NewParser ?toks) = Inr (Program [ClassDeclNode ?cls])"
    by code_simp
  have m: "ClassDeclNode ?cls \<in> set (Declarations (Program [ClassDeclNode ?cls]))"
    by simp
  from parser_builds_no_method [OF p m, of "NewCodeGenerator (Program [])"] p
  show ?thesis by simp
qed

text \<open>
  C9. No token returned by \<^verbatim>\<open>tokenize\<close> is claimed to have the type \<^verbatim>\<open>LANGLE\<close> or
  \<^verbatim>\<open>RANGLE\<close>, and \<^verbatim>\<open><\<close> and \<^verbatim>\<open>>\<close> are claimed to become \<^verbatim>\<open>OP\<close> tokens. The braces
  get these two types, and \<^verbatim>\<open><\<close> becomes a token of type \<^verbatim>\<open>RPAREN\<close>.
\<close>

theorem braces_lex_as_angle_brackets:
  "tokenize ''{<}'' =
     Inr [\<lparr>Type = ''LANGLE'', Value = ''{'', Line = 1, Column = 0\<rparr>,
          \<lparr>Type = ''RPAREN'', Value = ''<'', Line = 1, Column = 1\<rparr>,
          \<lparr>Type = ''RANGLE'', Value = ''}'', Line = 1, Column = 2\<rparr>,
          \<lparr>Type = ''EOF'', Value = [], Line = 1, Column = 0\<rparr>]"
  by code_simp

text \<open>
  C10. For the token sequence of a successful \<^verbatim>\<open>tokenize\<close>, \<open>parse\<close> never ends in
  the panic of an out-of-range slice read. Every read of the model that is out of range
  ends the parse with this panic, so no \<^verbatim>\<open>current\<close>, \<^verbatim>\<open>consume\<close> or lookahead reads
  outside the sequence; a parse that aborts does so by one of the explicit panics.
\<close>

theorem parse_stays_in_bounds:
  assumes "tokenize src = Inr toks"
  shows "in_bounds (NewParser toks)
         \<and> (\<forall>i n. parse (NewParser toks) \<noteq> Inl (IndexOutOfRange i n))
         \<and> (\<forall>e. parse (NewParser toks) = Inl e \<longrightarrow> explicit_fault e)"
proof -
  from tokenize_in_bounds [OF assms] have b: "in_bounds (NewParser toks)" .
  have e: "explicit_fault e" if "parse (NewParser toks) = Inl e" for e
    using parse_in_bounds [OF b that] .
  have "parse (NewParser toks) \<noteq> Inl (IndexOutOfRange i n)" for i n
  proof
    assume "parse (NewParser toks) = Inl (IndexOutOfRange i n)"
    from e [OF this] show False by simp
  qed
  with b e show ?thesis by blast
qed

theorem parse_stays_in_bounds_witness:
  "tokenize ''int x'' =
     Inr [\<lparr>Type = ''LPAREN'', Value = ''int'', Line = 1, Column = 0\<rparr>,
          \<lparr>Type = [], Value = '' '', Line = 1, Column = 3\<rparr>,
          \<lparr>Type = ''LPAREN'', Value = ''x'', Line = 1, Column = 4\<rparr>,
          \<lparr>Type = ''EOF'', Value = [], Line = 1, Column = 0\<rparr>]
   \<and> (\<forall>i n. parse (NewParser
          [\<lparr>Type = ''LPAREN'', Value = ''int'', Line = 1, Column = 0\<rparr>,
           \<lparr>Type = [], Value = '' '', Line = 1, Column = 3\<rparr>,
           \<lparr>Type = ''LPAREN'', Value = ''x'', Line = 1, Column = 4\<rparr>,
           \<lparr>Type = ''EOF'', Value = [], Line = 1, Column = 0\<rparr>]) \<noteq> Inl (IndexOutOfRange i n))"
proof -
  have t: "tokenize ''int x'' =
     Inr [\<lparr>Type = ''LPAREN'', Value = ''int'', Line = 1, Column = 0\<rparr>,
          \<lparr>Type = [], Value = '' '', Line = 1, Column = 3\<rparr>,
          \<lparr>Type = ''LPAREN'', Value = ''x'', Line = 1, Column = 4\<rparr>,
          \<lparr>Type = ''EOF'', Value = [], Line = 1, Column = 0\<rparr>]"
    by code_simp
  from parse_stays_in_bounds [OF t] t show ?thesis by blast
qed

end
